theory Spec2Isabelle
  imports Main "HOL-Library.Word"
begin

section \<open>The network dataplane of network.c\<close>

subsection \<open>Data model\<close>

type_synonym byte = "8 word"
type_synonym evbuffer = "byte list"
type_synonym sockaddr = "byte list"
type_synonym conn_id = nat
type_synonym params_id = nat

text \<open>The three listener modes that \<open>listener_new\<close> switches on.\<close>

datatype listen_mode = LSN_SIMPLE_CLIENT | LSN_SIMPLE_SERVER | LSN_SOCKS_CLIENT

text \<open>
  Modelled from the spec: socks.h and protocol.h are not part of the sources. The code
  names \<open>ST_HAVE_ADDR\<close>, \<open>ST_SENT_REPLY\<close>, the four \<open>SOCKS_*\<close> results,
  \<open>RECV_BAD\<close> and \<open>RECV_SEND_PENDING\<close>; the remaining constructors stand for the
  states and results it does not test for.
\<close>

datatype socks_status_t = ST_WAITING | ST_NEGOTIATION_DONE | ST_HAVE_ADDR | ST_SENT_REPLY

datatype socks_ret = SOCKS_GOOD | SOCKS_INCOMPLETE | SOCKS_CMD_NOT_CONNECT | SOCKS_BROKEN

datatype recv_ret = RECV_GOOD | RECV_INCOMPLETE | RECV_BAD | RECV_SEND_PENDING

text \<open>
  The libevent bit masks. \<open>EV_READ|EV_WRITE\<close> is the set \<open>{EV_READ, EV_WRITE}\<close>, the
  \<open>short what\<close> of an event callback is the set of its \<open>BEV_EVENT_*\<close> bits, and
  \<open>what & m\<close> is non-zero when the intersection with \<open>m\<close> is non-empty.
\<close>

datatype ev_flag = EV_READ | EV_WRITE

datatype bev_event =
  BEV_EVENT_READING | BEV_EVENT_WRITING | BEV_EVENT_EOF | BEV_EVENT_ERROR
  | BEV_EVENT_TIMEOUT | BEV_EVENT_CONNECTED

text \<open>
  A \<open>struct bufferevent *\<close> handed to a callback is one of the two streams of the
  connection it belongs to; it is NULL when that field of the connection is \<open>None\<close>.
\<close>

datatype side = Input | Output

text \<open>
  The \<open>void *arg\<close> of a callback. A callback casts it to \<open>conn_t *\<close>; the tag
  records what the pointer really points to.
\<close>

datatype void_ptr = Null_ptr | Conn_ptr conn_id | Bev_ptr conn_id side

text \<open>The functions of this file that are installed as bufferevent callbacks.\<close>

datatype data_cb = Upstream_read_cb | Downstream_read_cb | Socks_read_cb | Close_conn_on_flush

datatype event_cb = Input_event_cb | Output_event_cb | Socks_event_cb

datatype listener_cb =
  Simple_client_listener_cb | Simple_server_listener_cb | Socks_client_listener_cb

record bufferevent =
  read_buf :: evbuffer
  write_buf :: evbuffer
  enabled :: "ev_flag set"
  readcb :: "data_cb option"
  writecb :: "data_cb option"
  eventcb :: "event_cb option"
  cbarg :: void_ptr
  socket_error :: int
  peername :: "sockaddr option"

record ('p, 's) conn_t =
  proto :: "'p option"
  socks_state :: "'s option"
  conn_input :: "bufferevent option"
  conn_output :: "bufferevent option"
  mode :: listen_mode
  flushing :: bool
  is_open :: bool

record protocol_params_t =
  params_mode :: listen_mode
  listen_addr :: sockaddr
  target_addr :: "sockaddr option"

datatype lev_opt = LEV_OPT_CLOSE_ON_FREE | LEV_OPT_CLOSE_ON_EXEC | LEV_OPT_REUSEABLE

record evconnlistener =
  accept_cb :: listener_cb
  lev_flags :: "lev_opt set"
  bound_addr :: sockaddr

record listener_t =
  listener :: "evconnlistener option"
  proto_params :: params_id

text \<open>What stops a callback: a failed \<open>obfs_assert\<close>, \<open>obfs_abort\<close>, or a bad pointer.\<close>

datatype crash = Assertion_failed | Aborted | Null_deref | Bad_cast | Use_after_free

text \<open>The calls that leave this file, in the order they are made.\<close>

datatype call =
  Finish_shutdown
  | Proto_handshake conn_id side
  | Socket_connect conn_id
  | Closesocket int

text \<open>
  The module's static variables (\<open>listeners\<close>, \<open>connections\<close>, \<open>shutting_down\<close>),
  the live \<open>conn_t\<close> and \<open>protocol_params_t\<close> objects of the heap, the next address
  \<open>xzalloc\<close> hands out, and the log of outgoing calls. A smartlist pointer that is NULL
  is \<open>None\<close>.
\<close>

record ('p, 's) net_state =
  listeners :: "listener_t list option"
  connections :: "conn_id list option"
  shutting_down :: bool
  conns :: "conn_id \<rightharpoonup> ('p, 's) conn_t"
  params_heap :: "params_id \<rightharpoonup> protocol_params_t"
  next_conn :: conn_id
  trace :: "call list"

text \<open>
  The collaborators the file calls but does not define: the protocol object, the SOCKS
  parser and the reactor calls that can fail. Each returns its result together with the
  new contents of everything it may write to.
\<close>

record ('p, 's) externs =
  proto_create :: "protocol_params_t \<Rightarrow> 'p option"
  proto_handshake :: "'p \<Rightarrow> evbuffer \<Rightarrow> int \<times> 'p \<times> evbuffer"
  proto_send :: "'p \<Rightarrow> evbuffer \<Rightarrow> evbuffer \<Rightarrow> int \<times> 'p \<times> evbuffer \<times> evbuffer"
  proto_recv :: "'p \<Rightarrow> evbuffer \<Rightarrow> evbuffer \<Rightarrow> recv_ret \<times> 'p \<times> evbuffer \<times> evbuffer"
  socks_state_new :: "'s"
  socks_state_get_status :: "'s \<Rightarrow> socks_status_t"
  socks_state_get_address :: "'s \<Rightarrow> int \<times> int \<times> string \<times> int"
  socks_state_set_address :: "'s \<Rightarrow> sockaddr \<Rightarrow> 's"
  handle_socks :: "evbuffer \<Rightarrow> evbuffer \<Rightarrow> 's \<Rightarrow> socks_ret \<times> evbuffer \<times> evbuffer \<times> 's"
  socks_send_reply :: "'s \<Rightarrow> evbuffer \<Rightarrow> int \<Rightarrow> 's \<times> evbuffer"
  socks5_send_reply :: "evbuffer \<Rightarrow> 's \<Rightarrow> int \<Rightarrow> evbuffer \<times> 's"
  evconnlistener_new_bind :: "sockaddr \<Rightarrow> bool"
  bufferevent_socket_new :: "int \<Rightarrow> bool"
  bufferevent_socket_connect :: "sockaddr \<Rightarrow> int"
  bufferevent_socket_connect_hostname :: "int \<Rightarrow> string \<Rightarrow> int \<Rightarrow> int"

definition SOCKS5_FAILED_UNSUPPORTED :: int where
  "SOCKS5_FAILED_UNSUPPORTED = 7"

subsection \<open>Registry, teardown and shutdown\<close>

definition finish_shutdown :: "('p, 's) net_state \<Rightarrow> ('p, 's) net_state" where
  "finish_shutdown st = st\<lparr>trace := trace st @ [Finish_shutdown]\<rparr>"

text \<open>
  \<open>conn_free\<close> destroys the protocol object, the SOCKS state and both streams and
  releases the record: the object leaves the heap. Freeing a dead pointer is a crash.
\<close>

definition conn_free :: "('p, 's) net_state \<Rightarrow> conn_id \<Rightarrow> crash + ('p, 's) net_state" where
  "conn_free st c =
     (case conns st c of
        None \<Rightarrow> Inl Use_after_free
      | Some _ \<Rightarrow> Inr (st\<lparr>conns := (conns st)(c := None)\<rparr>))"

text \<open>
  Modelled from the spec: container.c is not part of the sources. \<open>close_conn\<close>
  ``removes \<open>conn\<close> from the registry'': \<open>smartlist_remove\<close> drops every
  occurrence of the element, and the order of the others is not used by this file.
\<close>

definition close_conn :: "('p, 's) net_state \<Rightarrow> conn_id \<Rightarrow> crash + ('p, 's) net_state" where
  "close_conn st c =
     (case connections st of
        None \<Rightarrow> Inl Assertion_failed
      | Some cs \<Rightarrow>
          (case conn_free (st\<lparr>connections := Some (removeAll c cs)\<rparr>) c of
             Inl e \<Rightarrow> Inl e
           | Inr st1 \<Rightarrow>
               let st2 = (if length (removeAll c cs) = 0
                          then st1\<lparr>connections := None\<rparr> else st1)
               in Inr (if connections st2 = None \<and> shutting_down st2
                       then finish_shutdown st2 else st2)))"

fun free_each :: "('p, 's) net_state \<Rightarrow> conn_id list \<Rightarrow> crash + ('p, 's) net_state" where
  "free_each st [] = Inr st"
| "free_each st (c # cs) =
     (case conn_free st c of Inl e \<Rightarrow> Inl e | Inr st1 \<Rightarrow> free_each st1 cs)"

definition close_all_connections :: "('p, 's) net_state \<Rightarrow> crash + ('p, 's) net_state" where
  "close_all_connections st =
     (case connections st of
        None \<Rightarrow> Inr st
      | Some cs \<Rightarrow>
          (case free_each st cs of
             Inl e \<Rightarrow> Inl e
           | Inr st1 \<Rightarrow> Inr (st1\<lparr>connections := None\<rparr>)))"

definition start_shutdown :: "bool \<Rightarrow> ('p, 's) net_state \<Rightarrow> crash + ('p, 's) net_state" where
  "start_shutdown barbaric st =
     (let st1 = (if \<not> shutting_down st then st\<lparr>shutting_down := True\<rparr> else st)
      in case (if barbaric then close_all_connections st1 else Inr st1) of
           Inl e \<Rightarrow> Inl e
         | Inr st2 \<Rightarrow>
             let st3 = (if connections st2 = Some [] then st2\<lparr>connections := None\<rparr> else st2)
             in Inr (if connections st3 = None then finish_shutdown st3 else st3))"

text \<open>A sequence of calls into the shutdown machinery, stopped by the first crash.\<close>

datatype shutdown_call = Start_shutdown bool | Close_conn conn_id

fun shutdown_call_run ::
  "shutdown_call \<Rightarrow> ('p, 's) net_state \<Rightarrow> crash + ('p, 's) net_state" where
  "shutdown_call_run (Start_shutdown barbaric) st = start_shutdown barbaric st"
| "shutdown_call_run (Close_conn c) st = close_conn st c"

fun shutdown_calls_run ::
  "shutdown_call list \<Rightarrow> ('p, 's) net_state \<Rightarrow> crash + ('p, 's) net_state" where
  "shutdown_calls_run [] st = Inr st"
| "shutdown_calls_run (x # xs) st =
     (case shutdown_call_run x st of Inl e \<Rightarrow> Inl e | Inr st1 \<Rightarrow> shutdown_calls_run xs st1)"

definition finish_shutdown_calls :: "('p, 's) net_state \<Rightarrow> nat" where
  "finish_shutdown_calls st = length (filter (\<lambda>c. c = Finish_shutdown) (trace st))"

definition registry_empty :: "('p, 's) net_state \<Rightarrow> bool" where
  "registry_empty st = (case connections st of None \<Rightarrow> True | Some cs \<Rightarrow> cs = [])"

text \<open>The state of a freshly started process: nothing allocated, nothing registered.\<close>

definition initial_state :: "('p, 's) net_state" where
  "initial_state =
     \<lparr>listeners = None, connections = None, shutting_down = False,
      conns = Map.empty, params_heap = Map.empty, next_conn = 0, trace = []\<rparr>"

subsection \<open>Buffered streams\<close>

definition bufferevent_enable :: "ev_flag set \<Rightarrow> bufferevent \<Rightarrow> bufferevent" where
  "bufferevent_enable ev b = b\<lparr>enabled := enabled b \<union> ev\<rparr>"

definition bufferevent_disable :: "ev_flag set \<Rightarrow> bufferevent \<Rightarrow> bufferevent" where
  "bufferevent_disable ev b = b\<lparr>enabled := enabled b - ev\<rparr>"

definition bufferevent_setcb ::
  "data_cb option \<Rightarrow> data_cb option \<Rightarrow> event_cb option \<Rightarrow> void_ptr \<Rightarrow> bufferevent
   \<Rightarrow> bufferevent" where
  "bufferevent_setcb r w e arg b = b\<lparr>readcb := r, writecb := w, eventcb := e, cbarg := arg\<rparr>"

text \<open>
  What \<open>bufferevent_socket_new\<close> returns when it succeeds: empty buffers, no callbacks,
  and (libevent's rule, which the comments ``don't enable the input side for reading at
  this point'' rely on) writing enabled but not reading.
\<close>

definition new_bufferevent :: bufferevent where
  "new_bufferevent =
     \<lparr>read_buf = [], write_buf = [], enabled = {EV_WRITE}, readcb = None, writecb = None,
      eventcb = None, cbarg = Null_ptr, socket_error = 0, peername = None\<rparr>"

fun bev_of :: "side \<Rightarrow> ('p, 's) conn_t \<Rightarrow> bufferevent option" where
  "bev_of Input conn = conn_input conn"
| "bev_of Output conn = conn_output conn"

fun bev_set :: "side \<Rightarrow> bufferevent \<Rightarrow> ('p, 's) conn_t \<Rightarrow> ('p, 's) conn_t" where
  "bev_set Input b conn = conn\<lparr>conn_input := Some b\<rparr>"
| "bev_set Output b conn = conn\<lparr>conn_output := Some b\<rparr>"

text \<open>A call on the stream of one side; the stream pointer must not be NULL.\<close>

definition on_bev ::
  "side \<Rightarrow> (bufferevent \<Rightarrow> bufferevent) \<Rightarrow> ('p, 's) conn_t \<Rightarrow> crash + ('p, 's) conn_t" where
  "on_bev s f conn =
     (case bev_of s conn of None \<Rightarrow> Inl Null_deref | Some b \<Rightarrow> Inr (bev_set s (f b) conn))"

text \<open>Statements run one after the other on the connection record.\<close>

fun conn_steps ::
  "(('p, 's) conn_t \<Rightarrow> crash + ('p, 's) conn_t) list \<Rightarrow> ('p, 's) conn_t
   \<Rightarrow> crash + ('p, 's) conn_t" where
  "conn_steps [] conn = Inr conn"
| "conn_steps (f # fs) conn = (case f conn of Inl e \<Rightarrow> Inl e | Inr conn1 \<Rightarrow> conn_steps fs conn1)"

text \<open>\<open>bev == conn->input\<close> (or \<open>conn->output\<close>): \<open>bev\<close> itself is never NULL.\<close>

definition bev_is :: "side \<Rightarrow> side \<Rightarrow> ('p, 's) conn_t \<Rightarrow> bool" where
  "bev_is bev s conn = (bev = s \<and> bev_of s conn \<noteq> None)"

definition other_bev :: "side \<Rightarrow> ('p, 's) conn_t \<Rightarrow> side" where
  "other_bev bev conn = (if bev_is bev Input conn then Output else Input)"

text \<open>\<open>conn_t *conn = arg\<close> followed by the first use of \<open>conn\<close>.\<close>

definition conn_of_arg ::
  "('p, 's) net_state \<Rightarrow> void_ptr \<Rightarrow> crash + (conn_id \<times> ('p, 's) conn_t)" where
  "conn_of_arg st arg =
     (case arg of
        Null_ptr \<Rightarrow> Inl Null_deref
      | Bev_ptr _ _ \<Rightarrow> Inl Bad_cast
      | Conn_ptr c \<Rightarrow> (case conns st c of None \<Rightarrow> Inl Use_after_free | Some conn \<Rightarrow> Inr (c, conn)))"

definition conn_store ::
  "('p, 's) net_state \<Rightarrow> conn_id \<Rightarrow> ('p, 's) conn_t \<Rightarrow> ('p, 's) net_state" where
  "conn_store st c conn = st\<lparr>conns := (conns st)(c \<mapsto> conn)\<rparr>"

subsection \<open>Listeners\<close>

definition listener_new ::
  "('p, 's) externs \<Rightarrow> ('p, 's) net_state \<Rightarrow> params_id
   \<Rightarrow> crash + (listener_t option \<times> ('p, 's) net_state)" where
  "listener_new ext st params =
     (case params_heap st params of
        None \<Rightarrow> Inl Use_after_free
      | Some p \<Rightarrow>
          let callback = (case params_mode p of
                            LSN_SIMPLE_CLIENT \<Rightarrow> Simple_client_listener_cb
                          | LSN_SIMPLE_SERVER \<Rightarrow> Simple_server_listener_cb
                          | LSN_SOCKS_CLIENT \<Rightarrow> Socks_client_listener_cb)
          in if \<not> evconnlistener_new_bind ext (listen_addr p)
             then Inr (None, st\<lparr>params_heap := (params_heap st)(params := None)\<rparr>)
             else
               let lsn = \<lparr>listener =
                            Some \<lparr>accept_cb = callback,
                                  lev_flags = {LEV_OPT_CLOSE_ON_FREE, LEV_OPT_CLOSE_ON_EXEC,
                                               LEV_OPT_REUSEABLE},
                                  bound_addr = listen_addr p\<rparr>,
                          proto_params = params\<rparr>
               in Inr (Some lsn,
                       st\<lparr>listeners :=
                            Some ((case listeners st of None \<Rightarrow> [] | Some ls \<Rightarrow> ls) @ [lsn])\<rparr>))"

definition listener_free :: "('p, 's) net_state \<Rightarrow> listener_t \<Rightarrow> ('p, 's) net_state" where
  "listener_free st lsn = st\<lparr>params_heap := (params_heap st)(proto_params lsn := None)\<rparr>"

definition free_all_listeners :: "('p, 's) net_state \<Rightarrow> ('p, 's) net_state" where
  "free_all_listeners st =
     (case listeners st of
        None \<Rightarrow> st
      | Some ls \<Rightarrow> (fold (\<lambda>lsn s. listener_free s lsn) ls st)\<lparr>listeners := None\<rparr>)"

text \<open>The zero-filled record \<open>xzalloc\<close> returns, with \<open>mode\<close> already copied in.\<close>

definition zeroed_conn :: "listen_mode \<Rightarrow> ('p, 's) conn_t" where
  "zeroed_conn m =
     \<lparr>proto = None, socks_state = None, conn_input = None, conn_output = None, mode = m,
      flushing = False, is_open = False\<rparr>"

text \<open>
  The \<open>err:\<close> label of the listener callbacks: the connection under construction is
  freed (it never reached the heap of registered objects) and the accepted socket is
  closed if no stream took it over.
\<close>

definition accept_err :: "('p, 's) net_state \<Rightarrow> int \<Rightarrow> ('p, 's) net_state" where
  "accept_err st fd = (if fd \<ge> 0 then st\<lparr>trace := trace st @ [Closesocket fd]\<rparr> else st)"

definition register_conn ::
  "('p, 's) net_state \<Rightarrow> conn_id \<Rightarrow> ('p, 's) conn_t \<Rightarrow> ('p, 's) net_state" where
  "register_conn st c conn =
     (conn_store st c conn)
       \<lparr>connections := Some ((case connections st of None \<Rightarrow> [] | Some cs \<Rightarrow> cs) @ [c])\<rparr>"

definition log_call :: "call \<Rightarrow> ('p, 's) net_state \<Rightarrow> ('p, 's) net_state" where
  "log_call x st = st\<lparr>trace := trace st @ [x]\<rparr>"

definition simple_client_listener_cb ::
  "('p, 's) externs \<Rightarrow> ('p, 's) net_state \<Rightarrow> listener_t \<Rightarrow> int \<Rightarrow> crash + ('p, 's) net_state" where
  "simple_client_listener_cb ext st lsn fd =
     (let c = next_conn st; st0 = st\<lparr>next_conn := Suc c\<rparr> in
      case params_heap st (proto_params lsn) of
        None \<Rightarrow> Inl Use_after_free
      | Some params \<Rightarrow>
          if params_mode params \<noteq> LSN_SIMPLE_CLIENT then Inl Assertion_failed
          else (case proto_create ext params of
             None \<Rightarrow> Inr (accept_err st0 fd)
           | Some p \<Rightarrow>
               if \<not> bufferevent_socket_new ext fd then Inr (accept_err st0 fd)
               else if \<not> bufferevent_socket_new ext (- 1) then Inr (accept_err st0 (- 1))
               else
                 let inp = bufferevent_setcb (Some Upstream_read_cb) None (Some Input_event_cb)
                             (Conn_ptr c) new_bufferevent;
                     out = bufferevent_setcb (Some Downstream_read_cb) None
                             (Some Output_event_cb) (Conn_ptr c) new_bufferevent
                 in (case proto_handshake ext p (write_buf out) of
                       (r, p1, wb) \<Rightarrow>
                         let st1 = log_call (Proto_handshake c Output) st0 in
                         if r < 0 then Inr (accept_err st1 (- 1))
                         else (case target_addr params of
                            None \<Rightarrow> Inl Null_deref
                          | Some addr \<Rightarrow>
                              let st2 = log_call (Socket_connect c) st1 in
                              if bufferevent_socket_connect ext addr < 0
                              then Inr (accept_err st2 (- 1))
                              else Inr (register_conn st2 c
                                ((zeroed_conn (params_mode params))
                                   \<lparr>proto := Some p1, conn_input := Some inp,
                                    conn_output :=
                                      Some (bufferevent_enable {EV_READ, EV_WRITE}
                                              (out\<lparr>write_buf := wb\<rparr>))\<rparr>))))))"

definition simple_server_listener_cb ::
  "('p, 's) externs \<Rightarrow> ('p, 's) net_state \<Rightarrow> listener_t \<Rightarrow> int \<Rightarrow> crash + ('p, 's) net_state" where
  "simple_server_listener_cb ext st lsn fd =
     (let c = next_conn st; st0 = st\<lparr>next_conn := Suc c\<rparr> in
      case params_heap st (proto_params lsn) of
        None \<Rightarrow> Inl Use_after_free
      | Some params \<Rightarrow>
          if params_mode params \<noteq> LSN_SIMPLE_SERVER then Inl Assertion_failed
          else (case proto_create ext params of
             None \<Rightarrow> Inr (accept_err st0 fd)
           | Some p \<Rightarrow>
               if \<not> bufferevent_socket_new ext fd then Inr (accept_err st0 fd)
               else
                 let inp = bufferevent_setcb (Some Downstream_read_cb) None
                             (Some Input_event_cb) (Conn_ptr c) new_bufferevent
                 in if \<not> bufferevent_socket_new ext (- 1) then Inr (accept_err st0 (- 1))
                 else
                   let out = bufferevent_setcb (Some Upstream_read_cb) None
                               (Some Output_event_cb) (Conn_ptr c) new_bufferevent
                   in (case proto_handshake ext p (write_buf inp) of
                         (r, p1, wb) \<Rightarrow>
                           let st1 = log_call (Proto_handshake c Input) st0 in
                           if r < 0 then Inr (accept_err st1 (- 1))
                           else (case target_addr params of
                              None \<Rightarrow> Inl Null_deref
                            | Some addr \<Rightarrow>
                                let st2 = log_call (Socket_connect c) st1 in
                                if bufferevent_socket_connect ext addr < 0
                                then Inr (accept_err st2 (- 1))
                                else Inr (register_conn st2 c
                                  ((zeroed_conn (params_mode params))
                                     \<lparr>proto := Some p1,
                                      conn_input := Some (inp\<lparr>write_buf := wb\<rparr>),
                                      conn_output :=
                                        Some (bufferevent_enable {EV_READ, EV_WRITE} out)\<rparr>))))))"


subsection \<open>Closing and half-close\<close>

definition close_conn_on_flush ::
  "('p, 's) net_state \<Rightarrow> side \<Rightarrow> void_ptr \<Rightarrow> crash + ('p, 's) net_state" where
  "close_conn_on_flush st bev arg =
     (case conn_of_arg st arg of
        Inl e \<Rightarrow> Inl e
      | Inr (c, conn) \<Rightarrow>
          (case bev_of bev conn of
             None \<Rightarrow> Inl Null_deref
           | Some b \<Rightarrow> if length (write_buf b) = 0 then close_conn st c else Inr st))"

definition error_or_eof ::
  "('p, 's) net_state \<Rightarrow> conn_id \<Rightarrow> side \<Rightarrow> side \<Rightarrow> crash + ('p, 's) net_state" where
  "error_or_eof st c bev_err bev_flush =
     (case conns st c of
        None \<Rightarrow> Inl Use_after_free
      | Some conn \<Rightarrow>
          if flushing conn \<or> \<not> is_open conn then close_conn st c
          else (case bev_of bev_flush conn of
             None \<Rightarrow> Inl Null_deref
           | Some bf \<Rightarrow>
               if 0 = length (write_buf bf) then close_conn st c
               else (case conn_steps
                       [on_bev bev_err (bufferevent_disable {EV_READ, EV_WRITE}),
                        on_bev bev_flush (bufferevent_disable {EV_READ}),
                        on_bev bev_flush
                          (bufferevent_setcb None (Some Close_conn_on_flush)
                             (Some Output_event_cb) (Conn_ptr c)),
                        on_bev bev_flush (bufferevent_enable {EV_WRITE})]
                       (conn\<lparr>flushing := True\<rparr>) of
                  Inl e \<Rightarrow> Inl e
                | Inr conn1 \<Rightarrow> Inr (conn_store st c conn1))))"

subsection \<open>Forwarding\<close>

definition upstream_read_cb ::
  "('p, 's) externs \<Rightarrow> ('p, 's) net_state \<Rightarrow> side \<Rightarrow> void_ptr \<Rightarrow> crash + ('p, 's) net_state" where
  "upstream_read_cb ext st bev arg =
     (case conn_of_arg st arg of
        Inl e \<Rightarrow> Inl e
      | Inr (c, conn) \<Rightarrow>
          let other = other_bev bev conn in
          (case (proto conn, bev_of bev conn, bev_of other conn) of
             (Some p, Some b, Some ob) \<Rightarrow>
               (case proto_send ext p (read_buf b) (write_buf ob) of
                  (r, p1, rb, wb) \<Rightarrow>
                    let conn1 = bev_set other (ob\<lparr>write_buf := wb\<rparr>)
                                  (bev_set bev (b\<lparr>read_buf := rb\<rparr>) (conn\<lparr>proto := Some p1\<rparr>));
                        st1 = conn_store st c conn1
                    in if r < 0 then close_conn st1 c else Inr st1)
           | _ \<Rightarrow> Inl Null_deref))"

text \<open>
  The \<open>proto_send\<close> of the \<open>RECV_SEND_PENDING\<close> branch always works on
  \<open>conn->input\<close>'s read buffer and \<open>conn->output\<close>'s write buffer; its result is not
  looked at.
\<close>

definition send_pending ::
  "('p, 's) externs \<Rightarrow> ('p, 's) conn_t \<Rightarrow> crash + ('p, 's) conn_t" where
  "send_pending ext conn =
     (case (proto conn, conn_input conn, conn_output conn) of
        (Some p, Some ib, Some ob) \<Rightarrow>
          (case proto_send ext p (read_buf ib) (write_buf ob) of
             (r, p1, rb, wb) \<Rightarrow>
               Inr (conn\<lparr>proto := Some p1, conn_input := Some (ib\<lparr>read_buf := rb\<rparr>),
                         conn_output := Some (ob\<lparr>write_buf := wb\<rparr>)\<rparr>))
      | _ \<Rightarrow> Inl Null_deref)"

definition downstream_read_cb ::
  "('p, 's) externs \<Rightarrow> ('p, 's) net_state \<Rightarrow> side \<Rightarrow> void_ptr \<Rightarrow> crash + ('p, 's) net_state" where
  "downstream_read_cb ext st bev arg =
     (case conn_of_arg st arg of
        Inl e \<Rightarrow> Inl e
      | Inr (c, conn) \<Rightarrow>
          let other = other_bev bev conn in
          (case (proto conn, bev_of bev conn, bev_of other conn) of
             (Some p, Some b, Some ob) \<Rightarrow>
               (case proto_recv ext p (read_buf b) (write_buf ob) of
                  (r, p1, rb, wb) \<Rightarrow>
                    let conn1 = bev_set other (ob\<lparr>write_buf := wb\<rparr>)
                                  (bev_set bev (b\<lparr>read_buf := rb\<rparr>) (conn\<lparr>proto := Some p1\<rparr>));
                        st1 = conn_store st c conn1
                    in if r = RECV_BAD then close_conn st1 c
                       else if r = RECV_SEND_PENDING
                       then (case send_pending ext conn1 of
                               Inl e \<Rightarrow> Inl e
                             | Inr conn2 \<Rightarrow> Inr (conn_store st c conn2))
                       else Inr st1)
           | _ \<Rightarrow> Inl Null_deref))"

subsection \<open>Event callbacks\<close>

definition input_event_cb ::
  "('p, 's) net_state \<Rightarrow> side \<Rightarrow> bev_event set \<Rightarrow> void_ptr \<Rightarrow> crash + ('p, 's) net_state" where
  "input_event_cb st bev what arg =
     (case conn_of_arg st arg of
        Inl e \<Rightarrow> Inl e
      | Inr (c, conn) \<Rightarrow>
          if \<not> bev_is bev Input conn then Inl Assertion_failed
          else if what \<inter> {BEV_EVENT_EOF, BEV_EVENT_ERROR, BEV_EVENT_TIMEOUT} = {}
          then Inl Assertion_failed
          else if BEV_EVENT_CONNECTED \<in> what then Inl Assertion_failed
          else error_or_eof st c bev Output)"

definition output_event_cb ::
  "('p, 's) net_state \<Rightarrow> side \<Rightarrow> bev_event set \<Rightarrow> void_ptr \<Rightarrow> crash + ('p, 's) net_state" where
  "output_event_cb st bev what arg =
     (case conn_of_arg st arg of
        Inl e \<Rightarrow> Inl e
      | Inr (c, conn) \<Rightarrow>
          if \<not> bev_is bev Output conn then Inl Assertion_failed
          else if flushing conn
                  \<or> what \<inter> {BEV_EVENT_EOF, BEV_EVENT_ERROR, BEV_EVENT_TIMEOUT} \<noteq> {}
          then error_or_eof st c bev Input
          else if BEV_EVENT_CONNECTED \<in> what
          then (case on_bev Input (bufferevent_enable {EV_READ, EV_WRITE})
                       (conn\<lparr>is_open := True\<rparr>) of
                  Inl e \<Rightarrow> Inl e
                | Inr conn1 \<Rightarrow> Inr (conn_store st c conn1))
          else Inl Aborted)"

text \<open>
  The two SOCKS replies write to \<open>conn->input\<close>'s output buffer and may change the
  SOCKS state.
\<close>

definition send_socks_reply ::
  "('p, 's) externs \<Rightarrow> int \<Rightarrow> ('p, 's) conn_t \<Rightarrow> crash + ('p, 's) conn_t" where
  "send_socks_reply ext err conn =
     (case (socks_state conn, conn_input conn) of
        (Some ss, Some ib) \<Rightarrow>
          (case socks_send_reply ext ss (write_buf ib) err of
             (ss1, wb) \<Rightarrow>
               Inr (conn\<lparr>socks_state := Some ss1, conn_input := Some (ib\<lparr>write_buf := wb\<rparr>)\<rparr>))
      | _ \<Rightarrow> Inl Null_deref)"

definition send_socks5_reply ::
  "('p, 's) externs \<Rightarrow> side \<Rightarrow> int \<Rightarrow> ('p, 's) conn_t \<Rightarrow> crash + ('p, 's) conn_t" where
  "send_socks5_reply ext bev code conn =
     (case (socks_state conn, bev_of bev conn) of
        (Some ss, Some b) \<Rightarrow>
          (case socks5_send_reply ext (write_buf b) ss code of
             (wb, ss1) \<Rightarrow>
               Inr (bev_set bev (b\<lparr>write_buf := wb\<rparr>) (conn\<lparr>socks_state := Some ss1\<rparr>)))
      | _ \<Rightarrow> Inl Null_deref)"

text \<open>
  \<open>socklen_t slen = sizeof(&ss)\<close> is the size of a pointer, not of the address
  buffer: \<open>getpeername\<close> writes at most that many bytes of the peer address, and
  only those reach \<open>socks_state_set_address\<close>. The size is 8 on the LP64 platforms.
\<close>

definition sizeof_pointer :: nat where
  "sizeof_pointer = 8"

text \<open>
  The \<open>BEV_EVENT_CONNECTED\<close> block of \<open>socks_event_cb\<close>. Its last statement is
  \<open>downstream_read_cb(bev, conn->input)\<close>: the second argument is the input stream, not
  the connection.
\<close>

definition socks_connected ::
  "('p, 's) externs \<Rightarrow> ('p, 's) net_state \<Rightarrow> conn_id \<Rightarrow> side \<Rightarrow> crash + ('p, 's) net_state" where
  "socks_connected ext st c bev =
     (case conns st c of
        None \<Rightarrow> Inl Use_after_free
      | Some conn \<Rightarrow>
          (case (socks_state conn, bev_of bev conn) of
             (None, _) \<Rightarrow> Inl Assertion_failed
           | (Some ss, None) \<Rightarrow> Inl Null_deref
           | (Some ss, Some b) \<Rightarrow>
               let conn0 = (case peername b of
                              Some sa \<Rightarrow>
                                conn\<lparr>socks_state :=
                                       Some (socks_state_set_address ext ss
                                               (take sizeof_pointer sa))\<rparr>
                            | None \<Rightarrow> conn)
               in (case conn_steps
                      [send_socks_reply ext 0,
                       (\<lambda>k. Inr (k\<lparr>socks_state := None\<rparr>)),
                       on_bev Input (bufferevent_setcb (Some Upstream_read_cb) None
                                       (Some Input_event_cb) (Conn_ptr c)),
                       on_bev Output (bufferevent_setcb (Some Downstream_read_cb) None
                                        (Some Output_event_cb) (Conn_ptr c))]
                      conn0 of
                     Inl e \<Rightarrow> Inl e
                   | Inr conn1 \<Rightarrow>
                       (case conn_input conn1 of
                          None \<Rightarrow> Inl Null_deref
                        | Some ib \<Rightarrow>
                            if length (read_buf ib) \<noteq> 0
                            then downstream_read_cb ext (conn_store st c conn1) bev
                                   (Bev_ptr c Input)
                            else Inr (conn_store st c conn1)))))"

definition socks_event_cb ::
  "('p, 's) externs \<Rightarrow> ('p, 's) net_state \<Rightarrow> side \<Rightarrow> bev_event set \<Rightarrow> void_ptr
   \<Rightarrow> crash + ('p, 's) net_state" where
  "socks_event_cb ext st bev what arg =
     (case conn_of_arg st arg of
        Inl e \<Rightarrow> Inl e
      | Inr (c, conn) \<Rightarrow>
          if \<not> bev_is bev Output conn then Inl Assertion_failed
          else if BEV_EVENT_ERROR \<in> what \<and> socks_state conn = None then Inl Null_deref
          else if BEV_EVENT_ERROR \<in> what
                  \<and> map_option (socks_state_get_status ext) (socks_state conn) = Some ST_HAVE_ADDR
          then (case bev_of bev conn of
                  None \<Rightarrow> Inl Null_deref
                | Some b \<Rightarrow>
                    (case conn_steps
                       [on_bev Input (bufferevent_enable {EV_WRITE}),
                        on_bev Input (bufferevent_disable {EV_READ}),
                        send_socks_reply ext (socket_error b),
                        on_bev Input
                          (bufferevent_setcb None (Some Close_conn_on_flush)
                             (Some Output_event_cb) (Conn_ptr c))]
                       conn of
                       Inl e \<Rightarrow> Inl e
                     | Inr conn1 \<Rightarrow> Inr (conn_store st c conn1)))
          else (case (if BEV_EVENT_CONNECTED \<in> what then socks_connected ext st c bev
                      else Inr st) of
                  Inl e \<Rightarrow> Inl e
                | Inr st1 \<Rightarrow> output_event_cb st1 bev what arg))"

subsection \<open>SOCKS negotiation\<close>

text \<open>The \<open>ST_HAVE_ADDR\<close> branch of \<open>socks_read_cb\<close>: attach the outbound stream.\<close>

definition socks_attach_outbound ::
  "('p, 's) externs \<Rightarrow> ('p, 's) net_state \<Rightarrow> conn_id \<Rightarrow> ('p, 's) conn_t \<Rightarrow> 's
   \<Rightarrow> crash + ('p, 's) net_state" where
  "socks_attach_outbound ext st c conn ss =
     (case socks_state_get_address ext ss of
        (r, af, addr, port) \<Rightarrow>
          if r \<noteq> 0 then Inl Assertion_failed
          else if \<not> bufferevent_socket_new ext (- 1) then Inl Null_deref
          else
            let out = bufferevent_setcb (Some Downstream_read_cb) None (Some Socks_event_cb)
                        (Conn_ptr c) new_bufferevent
            in (case proto conn of
                  None \<Rightarrow> Inl Null_deref
                | Some p \<Rightarrow>
                    (case proto_handshake ext p (write_buf out) of
                       (h, p1, wb) \<Rightarrow>
                         let conn1 = conn\<lparr>proto := Some p1,
                                          conn_output := Some (out\<lparr>write_buf := wb\<rparr>)\<rparr>;
                             st1 = log_call (Proto_handshake c Output) (conn_store st c conn1)
                         in if h < 0 then close_conn st1 c
                            else
                              let r1 = bufferevent_socket_connect_hostname ext af addr port;
                                  conn2 = conn1\<lparr>conn_output :=
                                            Some (bufferevent_enable {EV_READ, EV_WRITE}
                                                    (out\<lparr>write_buf := wb\<rparr>))\<rparr>;
                                  st2 = log_call (Socket_connect c) (conn_store st1 c conn2)
                              in if r1 < 0 then close_conn st2 c
                                 else (case on_bev Input
                                              (bufferevent_disable {EV_READ, EV_WRITE}) conn2 of
                                         Inl e \<Rightarrow> Inl e
                                       | Inr conn3 \<Rightarrow> Inr (conn_store st2 c conn3)))))"

text \<open>What follows the \<open>do ... while\<close> loop, by the last result of \<open>handle_socks\<close>.\<close>

definition socks_read_done ::
  "('p, 's) externs \<Rightarrow> ('p, 's) net_state \<Rightarrow> conn_id \<Rightarrow> side \<Rightarrow> socks_ret
   \<Rightarrow> crash + ('p, 's) net_state" where
  "socks_read_done ext st c bev socks_ret =
     (if socks_ret = SOCKS_INCOMPLETE then Inr st
      else if socks_ret = SOCKS_BROKEN then close_conn st c
      else if socks_ret = SOCKS_CMD_NOT_CONNECT
      then (case conns st c of
              None \<Rightarrow> Inl Use_after_free
            | Some conn \<Rightarrow>
                (case conn_steps
                   [on_bev bev (bufferevent_enable {EV_WRITE}),
                    on_bev bev (bufferevent_disable {EV_READ}),
                    send_socks5_reply ext bev SOCKS5_FAILED_UNSUPPORTED,
                    on_bev bev
                      (bufferevent_setcb None (Some Close_conn_on_flush)
                         (Some Output_event_cb) (Conn_ptr c))]
                   conn of
                   Inl e \<Rightarrow> Inl e
                 | Inr conn1 \<Rightarrow> Inr (conn_store st c conn1)))
      else Inr st)"

text \<open>
  The \<open>do ... while (socks_ret == SOCKS_GOOD)\<close> loop. The parser decides how often it
  runs, so the loop carries fuel: \<open>None\<close> is ``has not returned yet''.
\<close>

fun socks_read_loop ::
  "nat \<Rightarrow> ('p, 's) externs \<Rightarrow> ('p, 's) net_state \<Rightarrow> conn_id \<Rightarrow> side
   \<Rightarrow> (crash + ('p, 's) net_state) option" where
  "socks_read_loop 0 ext st c bev = None"
| "socks_read_loop (Suc n) ext st c bev =
     (case conns st c of
        None \<Rightarrow> Some (Inl Use_after_free)
      | Some conn \<Rightarrow>
          (case socks_state conn of
             None \<Rightarrow> Some (Inl Null_deref)
           | Some ss \<Rightarrow>
               if socks_state_get_status ext ss = ST_SENT_REPLY then Some (Inl Aborted)
               else if socks_state_get_status ext ss = ST_HAVE_ADDR
               then Some (socks_attach_outbound ext st c conn ss)
               else (case bev_of bev conn of
                  None \<Rightarrow> Some (Inl Null_deref)
                | Some b \<Rightarrow>
                    (case handle_socks ext (read_buf b) (write_buf b) ss of
                       (socks_ret, rb, wb, ss1) \<Rightarrow>
                         let st1 = conn_store st c
                                     (bev_set bev (b\<lparr>read_buf := rb, write_buf := wb\<rparr>)
                                        (conn\<lparr>socks_state := Some ss1\<rparr>))
                         in if socks_ret = SOCKS_GOOD then socks_read_loop n ext st1 c bev
                            else Some (socks_read_done ext st1 c bev socks_ret)))))"

definition socks_read_cb ::
  "nat \<Rightarrow> ('p, 's) externs \<Rightarrow> ('p, 's) net_state \<Rightarrow> side \<Rightarrow> void_ptr
   \<Rightarrow> (crash + ('p, 's) net_state) option" where
  "socks_read_cb fuel ext st bev arg =
     (case conn_of_arg st arg of
        Inl e \<Rightarrow> Some (Inl e)
      | Inr (c, conn) \<Rightarrow>
          if \<not> bev_is bev Input conn then Some (Inl Assertion_failed)
          else socks_read_loop fuel ext st c bev)"

subsection \<open>The reactor calling back\<close>

datatype reactor_event =
  Read_ready conn_id side
  | Write_complete conn_id side
  | Bev_event conn_id side "bev_event set"

definition run_data_cb ::
  "nat \<Rightarrow> ('p, 's) externs \<Rightarrow> data_cb \<Rightarrow> ('p, 's) net_state \<Rightarrow> side \<Rightarrow> void_ptr
   \<Rightarrow> (crash + ('p, 's) net_state) option" where
  "run_data_cb fuel ext cb st bev arg =
     (case cb of
        Upstream_read_cb \<Rightarrow> Some (upstream_read_cb ext st bev arg)
      | Downstream_read_cb \<Rightarrow> Some (downstream_read_cb ext st bev arg)
      | Socks_read_cb \<Rightarrow> socks_read_cb fuel ext st bev arg
      | Close_conn_on_flush \<Rightarrow> Some (close_conn_on_flush st bev arg))"

definition run_event_cb ::
  "('p, 's) externs \<Rightarrow> event_cb \<Rightarrow> ('p, 's) net_state \<Rightarrow> side \<Rightarrow> bev_event set \<Rightarrow> void_ptr
   \<Rightarrow> crash + ('p, 's) net_state" where
  "run_event_cb ext cb st bev what arg =
     (case cb of
        Input_event_cb \<Rightarrow> input_event_cb st bev what arg
      | Output_event_cb \<Rightarrow> output_event_cb st bev what arg
      | Socks_event_cb \<Rightarrow> socks_event_cb ext st bev what arg)"

text \<open>
  The reactor looks up the callback installed on the stream and calls it with the stream
  and the stored argument; a stream with no callback of that kind, or one already freed,
  is left alone.
\<close>

definition the_bev :: "('p, 's) net_state \<Rightarrow> conn_id \<Rightarrow> side \<Rightarrow> bufferevent option" where
  "the_bev st c s = (case conns st c of None \<Rightarrow> None | Some conn \<Rightarrow> bev_of s conn)"

fun dispatch ::
  "nat \<Rightarrow> ('p, 's) externs \<Rightarrow> reactor_event \<Rightarrow> ('p, 's) net_state
   \<Rightarrow> (crash + ('p, 's) net_state) option" where
  "dispatch fuel ext (Read_ready c s) st =
     (case the_bev st c s of
        None \<Rightarrow> Some (Inr st)
      | Some b \<Rightarrow>
          (case readcb b of
             None \<Rightarrow> Some (Inr st)
           | Some cb \<Rightarrow> run_data_cb fuel ext cb st s (cbarg b)))"
| "dispatch fuel ext (Write_complete c s) st =
     (case the_bev st c s of
        None \<Rightarrow> Some (Inr st)
      | Some b \<Rightarrow>
          (case writecb b of
             None \<Rightarrow> Some (Inr st)
           | Some cb \<Rightarrow> run_data_cb fuel ext cb st s (cbarg b)))"
| "dispatch fuel ext (Bev_event c s what) st =
     (case the_bev st c s of
        None \<Rightarrow> Some (Inr st)
      | Some b \<Rightarrow>
          (case eventcb b of
             None \<Rightarrow> Some (Inr st)
           | Some cb \<Rightarrow> Some (run_event_cb ext cb st s what (cbarg b))))"

subsection \<open>Observations\<close>

definition live :: "('p, 's) net_state \<Rightarrow> conn_id \<Rightarrow> bool" where
  "live st c = (conns st c \<noteq> None)"

definition registered :: "('p, 's) net_state \<Rightarrow> conn_id \<Rightarrow> bool" where
  "registered st c = (c \<in> set (case connections st of None \<Rightarrow> [] | Some cs \<Rightarrow> cs))"


definition reads_input :: "('p, 's) net_state \<Rightarrow> conn_id \<Rightarrow> bool" where
  "reads_input st c = (case the_bev st c Input of None \<Rightarrow> False | Some b \<Rightarrow> EV_READ \<in> enabled b)"

subsection \<open>Concrete inputs\<close>

text \<open>
  A pass-through protocol and a SOCKS parser that waits for more bytes, with every
  reactor call succeeding; the instances below change one collaborator at a time.
\<close>

definition plain_ext :: "(unit, socks_status_t) externs" where
  "plain_ext =
     \<lparr>proto_create = (\<lambda>_. Some ()),
      proto_handshake = (\<lambda>p wb. (0, p, wb)),
      proto_send = (\<lambda>p rb wb. (0, p, [], wb @ rb)),
      proto_recv = (\<lambda>p rb wb. (RECV_GOOD, p, [], wb @ rb)),
      socks_state_new = ST_WAITING,
      socks_state_get_status = (\<lambda>s. s),
      socks_state_get_address = (\<lambda>_. (0, 2, ''example.test'', 80)),
      socks_state_set_address = (\<lambda>s _. s),
      handle_socks = (\<lambda>rb wb s. (SOCKS_INCOMPLETE, rb, wb, s)),
      socks_send_reply = (\<lambda>s wb err. (ST_SENT_REPLY, wb @ [5, if err = 0 then 0 else 1])),
      socks5_send_reply = (\<lambda>wb s code. (wb @ [5, word_of_int code], ST_SENT_REPLY)),
      evconnlistener_new_bind = (\<lambda>_. True),
      bufferevent_socket_new = (\<lambda>_. True),
      bufferevent_socket_connect = (\<lambda>_. 0),
      bufferevent_socket_connect_hostname = (\<lambda>_ _ _. 0)\<rparr>"

definition client_params :: protocol_params_t where
  "client_params =
     \<lparr>params_mode = LSN_SIMPLE_CLIENT, listen_addr = [127, 0, 0, 1], target_addr = Some [10, 0, 0, 1]\<rparr>"

definition configured_state :: "protocol_params_t \<Rightarrow> (unit, socks_status_t) net_state" where
  "configured_state p = initial_state\<lparr>params_heap := [0 \<mapsto> p]\<rparr>"

definition forwarding_conn :: "evbuffer \<Rightarrow> evbuffer \<Rightarrow> (unit, socks_status_t) conn_t" where
  "forwarding_conn iw ow =
     \<lparr>proto = Some (), socks_state = None,
      conn_input = Some \<lparr>read_buf = [], write_buf = iw, enabled = {EV_READ, EV_WRITE},
                         readcb = Some Upstream_read_cb, writecb = None,
                         eventcb = Some Input_event_cb, cbarg = Conn_ptr 0,
                         socket_error = 0, peername = None\<rparr>,
      conn_output = Some \<lparr>read_buf = [], write_buf = ow, enabled = {EV_READ, EV_WRITE},
                          readcb = Some Downstream_read_cb, writecb = None,
                          eventcb = Some Output_event_cb, cbarg = Conn_ptr 0,
                          socket_error = 0, peername = None\<rparr>,
      mode = LSN_SIMPLE_CLIENT, flushing = False, is_open = True\<rparr>"

definition one_conn_state ::
  "(unit, socks_status_t) conn_t \<Rightarrow> (unit, socks_status_t) net_state" where
  "one_conn_state conn =
     initial_state\<lparr>connections := Some [0], conns := [0 \<mapsto> conn], next_conn := 1\<rparr>"

definition socks_conn ::
  "socks_status_t \<Rightarrow> evbuffer \<Rightarrow> bufferevent option \<Rightarrow> (unit, socks_status_t) conn_t" where
  "socks_conn status rb out =
     \<lparr>proto = Some (), socks_state = Some status,
      conn_input = Some \<lparr>read_buf = rb, write_buf = [], enabled = {EV_READ, EV_WRITE},
                         readcb = Some Socks_read_cb, writecb = None,
                         eventcb = Some Input_event_cb, cbarg = Conn_ptr 0,
                         socket_error = 0, peername = None\<rparr>,
      conn_output = out,
      mode = LSN_SOCKS_CLIENT, flushing = False, is_open = False\<rparr>"

definition connecting_bev :: bufferevent where
  "connecting_bev =
     \<lparr>read_buf = [], write_buf = [], enabled = {EV_READ, EV_WRITE},
      readcb = Some Downstream_read_cb, writecb = None, eventcb = Some Socks_event_cb,
      cbarg = Conn_ptr 0, socket_error = 111, peername = None\<rparr>"

definition send_fails_ext :: "(unit, socks_status_t) externs" where
  "send_fails_ext =
     plain_ext\<lparr>proto_recv := (\<lambda>p rb wb. (RECV_SEND_PENDING, p, [], wb)),
               proto_send := (\<lambda>p rb wb. (- 1, p, rb, wb))\<rparr>"

definition recv_bad_ext :: "(unit, socks_status_t) externs" where
  "recv_bad_ext = plain_ext\<lparr>proto_recv := (\<lambda>p rb wb. (RECV_BAD, p, rb, wb))\<rparr>"

definition handshake_ext :: "(unit, socks_status_t) externs" where
  "handshake_ext = plain_ext\<lparr>proto_handshake := (\<lambda>p wb. (0, p, wb @ [22, 3, 1]))\<rparr>"

definition server_params :: protocol_params_t where
  "server_params =
     \<lparr>params_mode = LSN_SIMPLE_SERVER, listen_addr = [127, 0, 0, 1], target_addr = Some [10, 0, 0, 2]\<rparr>"

definition listener_on :: "listener_cb \<Rightarrow> listener_t" where
  "listener_on cb =
     \<lparr>listener = Some \<lparr>accept_cb = cb,
                        lev_flags = {LEV_OPT_CLOSE_ON_FREE, LEV_OPT_CLOSE_ON_EXEC,
                                     LEV_OPT_REUSEABLE},
                        bound_addr = [127, 0, 0, 1]\<rparr>,
      proto_params = 0\<rparr>"


text \<open>How many of the calls of a sequence are \<open>start_shutdown\<close> calls.\<close>

fun is_start_shutdown :: "shutdown_call \<Rightarrow> bool" where
  "is_start_shutdown (Start_shutdown barbaric) = True"
| "is_start_shutdown (Close_conn c) = False"

definition start_shutdown_calls :: "shutdown_call list \<Rightarrow> nat" where
  "start_shutdown_calls xs = length (filter is_start_shutdown xs)"

text \<open>
  The state at the head of the \<open>do ... while\<close> loop of \<open>socks_read_cb\<close> after
  \<open>n\<close> passes in which \<open>handle_socks\<close> answered \<open>SOCKS_GOOD\<close>; \<open>None\<close>
  when the callback has left the loop before that.
\<close>

fun socks_good_passes ::
  "nat \<Rightarrow> ('p, 's) externs \<Rightarrow> ('p, 's) net_state \<Rightarrow> conn_id \<Rightarrow> side
   \<Rightarrow> ('p, 's) net_state option" where
  "socks_good_passes 0 ext st c bev = Some st"
| "socks_good_passes (Suc n) ext st c bev =
     (case conns st c of
        None \<Rightarrow> None
      | Some conn \<Rightarrow>
          (case socks_state conn of
             None \<Rightarrow> None
           | Some ss \<Rightarrow>
               if socks_state_get_status ext ss = ST_SENT_REPLY
                  \<or> socks_state_get_status ext ss = ST_HAVE_ADDR
               then None
               else (case bev_of bev conn of
                  None \<Rightarrow> None
                | Some b \<Rightarrow>
                    (case handle_socks ext (read_buf b) (write_buf b) ss of
                       (socks_ret, rb, wb, ss1) \<Rightarrow>
                         if socks_ret = SOCKS_GOOD
                         then socks_good_passes n ext
                                (conn_store st c
                                   (bev_set bev (b\<lparr>read_buf := rb, write_buf := wb\<rparr>)
                                      (conn\<lparr>socks_state := Some ss1\<rparr>))) c bev
                         else None))))"

definition negotiating_ext :: "(unit, socks_status_t) externs" where
  "negotiating_ext =
     plain_ext\<lparr>handle_socks :=
       (\<lambda>rb wb s. if s = ST_WAITING
                   then (SOCKS_GOOD, drop 3 rb, wb @ [5, 0], ST_NEGOTIATION_DONE)
                   else if s = ST_NEGOTIATION_DONE \<and> take 2 rb = [5, 1]
                   then (SOCKS_GOOD, [], wb, ST_HAVE_ADDR)
                   else (SOCKS_CMD_NOT_CONNECT, [], wb, s))\<rparr>"

definition socks_handshake_ext :: "(unit, socks_status_t) externs" where
  "socks_handshake_ext =
     negotiating_ext\<lparr>proto_handshake := (\<lambda>p wb. (0, p, wb @ [22, 3, 1]))\<rparr>"

subsection \<open>Gate predicates\<close>

text \<open>
  The input gate: a connection is gated when it is open or its input stream has reading
  disabled. A connection is wired when each of its streams carries the connection itself
  as callback argument. \<open>conn_step_ok connected mine c\<close> relates the connection at
  address \<open>c\<close> before and after a callback: a callback whose argument is another
  connection leaves it as it is; otherwise it may be freed, or else \<open>is_open\<close> is
  never reset, is set only under \<open>connected\<close> and then with input reading on, input
  reading is not turned on while it is not open, and it stays wired.
\<close>

definition reading :: "('p, 's) conn_t \<Rightarrow> bool" where
  "reading conn = (case conn_input conn of None \<Rightarrow> False | Some b \<Rightarrow> EV_READ \<in> enabled b)"


definition conn_wired :: "conn_id \<Rightarrow> ('p, 's) conn_t \<Rightarrow> bool" where
  "conn_wired c conn =
     ((case conn_input conn of None \<Rightarrow> True | Some b \<Rightarrow> cbarg b = Conn_ptr c)
      \<and> (case conn_output conn of None \<Rightarrow> True | Some b \<Rightarrow> cbarg b = Conn_ptr c))"


definition conn_step_ok ::
  "bool \<Rightarrow> bool \<Rightarrow> conn_id \<Rightarrow> ('p, 's) conn_t option \<Rightarrow> ('p, 's) conn_t option \<Rightarrow> bool" where
  "conn_step_ok connected mine c old new =
     ((\<not> mine \<longrightarrow> new = old)
      \<and> (case new of
            None \<Rightarrow> True
          | Some k' \<Rightarrow>
              (case old of
                 None \<Rightarrow> False
               | Some k \<Rightarrow>
                   (is_open k \<longrightarrow> is_open k')
                   \<and> (is_open k' \<longrightarrow> is_open k \<or> (connected \<and> reading k'))
                   \<and> (reading k' \<longrightarrow> reading k \<or> is_open k')
                   \<and> (conn_wired c k \<longrightarrow> conn_wired c k'))))"




section \<open>Properties\<close>

subsection \<open>Shared lemmas\<close>

lemma conn_free_frame:
  assumes "conn_free st c = Inr st'"
  shows "connections st' = connections st" and "shutting_down st' = shutting_down st"
    and "trace st' = trace st" and "listeners st' = listeners st"
    and "params_heap st' = params_heap st" and "next_conn st' = next_conn st"
  using assms by (auto simp: conn_free_def split: option.splits)

lemma free_each_frame:
  "free_each st cs = Inr st' \<Longrightarrow>
     connections st' = connections st \<and> shutting_down st' = shutting_down st
     \<and> trace st' = trace st \<and> listeners st' = listeners st
     \<and> params_heap st' = params_heap st \<and> next_conn st' = next_conn st"
proof (induction cs arbitrary: st)
  case Nil
  then show ?case by simp
next
  case (Cons c cs)
  then obtain st1 where a: "conn_free st c = Inr st1" and b: "free_each st1 cs = Inr st'"
    by (auto split: sum.splits)
  from Cons.IH [OF b] conn_free_frame [OF a] show ?case by simp
qed

lemma close_conn_effect:
  "close_conn st c = Inr st' \<Longrightarrow>
     conns st' = (conns st)(c := None)
     \<and> (trace st' = trace st \<or> trace st' = trace st @ [Finish_shutdown])"
  by (auto simp: close_conn_def conn_free_def finish_shutdown_def Let_def
      split: option.splits if_splits)

lemma bev_of_bev_set: "bev_of s (bev_set s b conn) = Some b"
  by (cases s) simp_all

lemma write_complete_close_conn_on_flush:
  assumes "conns st c = Some conn" and "bev_of s conn = Some b"
    and "writecb b = Some Close_conn_on_flush" and "cbarg b = Conn_ptr c"
  shows "dispatch fuel ext (Write_complete c s) st
         = Some (if write_buf b = [] then close_conn st c else Inr st)"
  using assms
  by (simp add: the_bev_def run_data_cb_def close_conn_on_flush_def conn_of_arg_def)

subsection \<open>Listener creation\<close>

text \<open>
  C5. \<open>listener_new\<close> on live parameters either binds, returns the new listener
  holding the parameters and appends exactly that listener to the listener set, the
  parameters staying allocated; or fails to bind, frees the parameters, returns NULL and
  leaves the listener set as it was. Nothing else of the state changes in either case.
\<close>

theorem listener_new_cases:
  assumes "params_heap st params = Some p"
    and "lsn = \<lparr>listener =
                  Some \<lparr>accept_cb = (case params_mode p of
                                       LSN_SIMPLE_CLIENT \<Rightarrow> Simple_client_listener_cb
                                     | LSN_SIMPLE_SERVER \<Rightarrow> Simple_server_listener_cb
                                     | LSN_SOCKS_CLIENT \<Rightarrow> Socks_client_listener_cb),
                        lev_flags = {LEV_OPT_CLOSE_ON_FREE, LEV_OPT_CLOSE_ON_EXEC,
                                     LEV_OPT_REUSEABLE},
                        bound_addr = listen_addr p\<rparr>,
                proto_params = params\<rparr>"
  shows "(evconnlistener_new_bind ext (listen_addr p) \<longrightarrow>
            listener_new ext st params
              = Inr (Some lsn,
                     st\<lparr>listeners :=
                          Some ((case listeners st of None \<Rightarrow> [] | Some ls \<Rightarrow> ls) @ [lsn])\<rparr>)
            \<and> params_heap st params = Some p)
       \<and> (\<not> evconnlistener_new_bind ext (listen_addr p) \<longrightarrow>
            listener_new ext st params
              = Inr (None, st\<lparr>params_heap := (params_heap st)(params := None)\<rparr>)
            \<and> listeners (st\<lparr>params_heap := (params_heap st)(params := None)\<rparr>) = listeners st)"
  using assms by (simp add: listener_new_def Let_def)

theorem listener_new_cases_witness:
  "params_heap (configured_state client_params) 0 = Some client_params
   \<and> evconnlistener_new_bind plain_ext (listen_addr client_params)
   \<and> listener_new plain_ext (configured_state client_params) 0
       = Inr (Some \<lparr>listener = Some \<lparr>accept_cb = Simple_client_listener_cb,
                 lev_flags = {LEV_OPT_CLOSE_ON_FREE, LEV_OPT_CLOSE_ON_EXEC, LEV_OPT_REUSEABLE},
                 bound_addr = [127, 0, 0, 1]\<rparr>, proto_params = 0\<rparr>,
              (configured_state client_params)
                \<lparr>listeners := Some [\<lparr>listener = Some \<lparr>accept_cb = Simple_client_listener_cb,
                 lev_flags = {LEV_OPT_CLOSE_ON_FREE, LEV_OPT_CLOSE_ON_EXEC, LEV_OPT_REUSEABLE},
                 bound_addr = [127, 0, 0, 1]\<rparr>, proto_params = 0\<rparr>]\<rparr>)
   \<and> \<not> evconnlistener_new_bind (plain_ext\<lparr>evconnlistener_new_bind := (\<lambda>_. False)\<rparr>)
         (listen_addr client_params)
   \<and> listener_new (plain_ext\<lparr>evconnlistener_new_bind := (\<lambda>_. False)\<rparr>)
         (configured_state client_params) 0
       = Inr (None, (configured_state client_params)
                \<lparr>params_heap := (params_heap (configured_state client_params))(0 := None)\<rparr>)"
proof -
  have a: "params_heap (configured_state client_params) 0 = Some client_params"
    by (simp add: configured_state_def)
  show ?thesis
    using listener_new_cases [OF a refl, of plain_ext]
      listener_new_cases [OF a refl, of "plain_ext\<lparr>evconnlistener_new_bind := (\<lambda>_. False)\<rparr>"]
    by (simp add: a plain_ext_def client_params_def configured_state_def initial_state_def)
qed

subsection \<open>Half-close\<close>

lemma error_or_eof_close:
  assumes "conns st c = Some conn"
    and "flushing conn \<or> \<not> is_open conn \<or> map_option write_buf (bev_of bev_flush conn) = Some []"
  shows "error_or_eof st c bev_err bev_flush = close_conn st c"
  using assms by (auto simp: error_or_eof_def split: option.splits)

lemma error_or_eof_flush:
  assumes "conns st c = Some conn" and "\<not> flushing conn" and "is_open conn"
    and "bev_of bev_err conn = Some be" and "bev_of bev_flush conn = Some bf"
    and "write_buf bf \<noteq> []" and "bev_err \<noteq> bev_flush"
  shows "error_or_eof st c bev_err bev_flush
         = Inr (conn_store st c
             (bev_set bev_flush
                (bf\<lparr>readcb := None, writecb := Some Close_conn_on_flush,
                    eventcb := Some Output_event_cb, cbarg := Conn_ptr c,
                    enabled := insert EV_WRITE (enabled bf - {EV_READ})\<rparr>)
                (bev_set bev_err (be\<lparr>enabled := enabled be - {EV_READ, EV_WRITE}\<rparr>)
                   (conn\<lparr>flushing := True\<rparr>))))"
proof (cases bev_err)
  case Input
  with assms(7) have "bev_flush = Output" by (cases bev_flush) auto
  with Input assms(1-6) show ?thesis
    by (simp add: error_or_eof_def on_bev_def bufferevent_disable_def bufferevent_enable_def
        bufferevent_setcb_def)
next
  case Output
  with assms(7) have "bev_flush = Input" by (cases bev_flush) auto
  with Output assms(1-6) show ?thesis
    by (simp add: error_or_eof_def on_bev_def bufferevent_disable_def bufferevent_enable_def
        bufferevent_setcb_def)
qed

text \<open>
  C1. For a live connection, \<open>error_or_eof\<close> is \<open>close_conn\<close> when the
  connection is already flushing, or is not open, or the flush side's write buffer is
  empty. Otherwise it returns the state in which \<open>flushing\<close> is set, read and write
  are disabled on the errored stream, read is disabled and write enabled on the flush
  side, and the flush side's callbacks are \<open>(NULL, close_conn_on_flush,
  output_event_cb)\<close>. In that state a write-complete callback on the flush side leaves
  the connection alone while output is pending, and is \<open>close_conn\<close> once the
  write buffer has drained.
\<close>

theorem error_or_eof_cases:
  assumes "conns st c = Some conn"
    and "flushed = bf\<lparr>readcb := None, writecb := Some Close_conn_on_flush,
                       eventcb := Some Output_event_cb, cbarg := Conn_ptr c,
                       enabled := insert EV_WRITE (enabled bf - {EV_READ})\<rparr>"
    and "conn1 = bev_set bev_err (be\<lparr>enabled := enabled be - {EV_READ, EV_WRITE}\<rparr>)
                   (conn\<lparr>flushing := True\<rparr>)"
  shows "(flushing conn \<or> \<not> is_open conn
            \<or> map_option write_buf (bev_of bev_flush conn) = Some []
          \<longrightarrow> error_or_eof st c bev_err bev_flush = close_conn st c)
       \<and> (\<not> flushing conn \<and> is_open conn \<and> bev_of bev_err conn = Some be
            \<and> bev_of bev_flush conn = Some bf \<and> write_buf bf \<noteq> [] \<and> bev_err \<noteq> bev_flush
          \<longrightarrow> error_or_eof st c bev_err bev_flush
                = Inr (conn_store st c (bev_set bev_flush flushed conn1))
              \<and> dispatch fuel ext (Write_complete c bev_flush)
                  (conn_store st c (bev_set bev_flush flushed conn1))
                = Some (Inr (conn_store st c (bev_set bev_flush flushed conn1)))
              \<and> dispatch fuel ext (Write_complete c bev_flush)
                  (conn_store st c (bev_set bev_flush (flushed\<lparr>write_buf := []\<rparr>) conn1))
                = Some (close_conn
                    (conn_store st c (bev_set bev_flush (flushed\<lparr>write_buf := []\<rparr>) conn1)) c))"
proof (intro conjI impI)
  assume "flushing conn \<or> \<not> is_open conn
            \<or> map_option write_buf (bev_of bev_flush conn) = Some []"
  with assms(1) show "error_or_eof st c bev_err bev_flush = close_conn st c"
    by (rule error_or_eof_close)
next
  assume h: "\<not> flushing conn \<and> is_open conn \<and> bev_of bev_err conn = Some be
            \<and> bev_of bev_flush conn = Some bf \<and> write_buf bf \<noteq> [] \<and> bev_err \<noteq> bev_flush"
  then show "error_or_eof st c bev_err bev_flush
                = Inr (conn_store st c (bev_set bev_flush flushed conn1))"
    using error_or_eof_flush [OF assms(1), of bev_err be bev_flush bf] assms(2,3) by simp
  have w: "write_buf flushed \<noteq> []" using h assms(2) by simp
  show "dispatch fuel ext (Write_complete c bev_flush)
          (conn_store st c (bev_set bev_flush flushed conn1))
        = Some (Inr (conn_store st c (bev_set bev_flush flushed conn1)))"
    using write_complete_close_conn_on_flush
      [of "conn_store st c (bev_set bev_flush flushed conn1)" c
          "bev_set bev_flush flushed conn1" bev_flush flushed fuel ext] w assms(2)
    by (simp add: conn_store_def bev_of_bev_set)
  show "dispatch fuel ext (Write_complete c bev_flush)
          (conn_store st c (bev_set bev_flush (flushed\<lparr>write_buf := []\<rparr>) conn1))
        = Some (close_conn
            (conn_store st c (bev_set bev_flush (flushed\<lparr>write_buf := []\<rparr>) conn1)) c)"
    using write_complete_close_conn_on_flush
      [of "conn_store st c (bev_set bev_flush (flushed\<lparr>write_buf := []\<rparr>) conn1)" c
          "bev_set bev_flush (flushed\<lparr>write_buf := []\<rparr>) conn1" bev_flush
          "flushed\<lparr>write_buf := []\<rparr>" fuel ext] assms(2)
    by (simp add: conn_store_def bev_of_bev_set)
qed

theorem error_or_eof_cases_witness:
  "conns (one_conn_state (forwarding_conn [] [7])) 0 = Some (forwarding_conn [] [7])
   \<and> error_or_eof (one_conn_state (forwarding_conn [] [7])) 0 Input Output
       = Inr (one_conn_state
           ((forwarding_conn [] [7])
              \<lparr>flushing := True,
               conn_input := Some \<lparr>read_buf = [], write_buf = [], enabled = {},
                         readcb = Some Upstream_read_cb, writecb = None,
                         eventcb = Some Input_event_cb, cbarg = Conn_ptr 0,
                         socket_error = 0, peername = None\<rparr>,
               conn_output := Some \<lparr>read_buf = [], write_buf = [7], enabled = {EV_WRITE},
                          readcb = None, writecb = Some Close_conn_on_flush,
                          eventcb = Some Output_event_cb, cbarg = Conn_ptr 0,
                          socket_error = 0, peername = None\<rparr>\<rparr>))
   \<and> conns (one_conn_state (forwarding_conn [] [])) 0 = Some (forwarding_conn [] [])
   \<and> error_or_eof (one_conn_state (forwarding_conn [] [])) 0 Input Output
       = close_conn (one_conn_state (forwarding_conn [] [])) 0
   \<and> close_conn (one_conn_state (forwarding_conn [] [])) 0 = Inr (initial_state\<lparr>next_conn := 1\<rparr>)"
proof -
  have a: "conns (one_conn_state (forwarding_conn [] [7])) 0 = Some (forwarding_conn [] [7])"
    by (simp add: one_conn_state_def)
  have b: "conns (one_conn_state (forwarding_conn [] [])) 0 = Some (forwarding_conn [] [])"
    by (simp add: one_conn_state_def)
  have c: "close_conn (one_conn_state (forwarding_conn [] [])) 0
             = Inr (initial_state\<lparr>next_conn := 1\<rparr>)"
    by (simp add: close_conn_def conn_free_def one_conn_state_def initial_state_def)
  have d: "{EV_READ, EV_WRITE} - {EV_READ} = {EV_WRITE}" by auto
  show ?thesis
    using error_or_eof_cases [OF a refl refl, where bev_err = Input and bev_flush = Output
        and be = "the (conn_input (forwarding_conn [] [7]))"
        and bf = "the (conn_output (forwarding_conn [] [7]))"
        and fuel = 1 and ext = plain_ext]
      error_or_eof_cases [OF b refl refl, where bev_err = Input and bev_flush = Output
        and be = "the (conn_input (forwarding_conn [] []))"
        and bf = "the (conn_output (forwarding_conn [] []))"
        and fuel = 1 and ext = plain_ext]
    by (simp add: d forwarding_conn_def one_conn_state_def conn_store_def
        initial_state_def close_conn_def conn_free_def)
qed

text \<open>
  C9. Whenever \<open>error_or_eof\<close> enters the flushing state, the flush side's event
  callback is \<open>output_event_cb\<close> with the connection as its argument, whichever
  stream the flush side is. When the flush side is the input stream, every later event
  on it is dispatched to \<open>output_event_cb\<close>, whose assertion
  \<open>bev == conn->output\<close> fails: the process aborts.
\<close>

theorem flush_side_gets_output_event_cb:
  assumes "conns st c = Some conn" and "\<not> flushing conn" and "is_open conn"
    and "bev_of bev_err conn = Some be" and "bev_of bev_flush conn = Some bf"
    and "write_buf bf \<noteq> []" and "bev_err \<noteq> bev_flush"
  shows "\<exists>st'. error_or_eof st c bev_err bev_flush = Inr st'
           \<and> map_option eventcb (the_bev st' c bev_flush) = Some (Some Output_event_cb)
           \<and> map_option cbarg (the_bev st' c bev_flush) = Some (Conn_ptr c)
           \<and> (bev_flush = Input \<longrightarrow>
                (\<forall>what. dispatch fuel ext (Bev_event c Input what) st'
                          = Some (Inl Assertion_failed)))"
  using error_or_eof_flush [OF assms]
  by (simp add: the_bev_def conn_store_def bev_of_bev_set run_event_cb_def output_event_cb_def
      conn_of_arg_def bev_is_def)

theorem flush_side_gets_output_event_cb_witness:
  "conns (one_conn_state (forwarding_conn [7] [])) 0 = Some (forwarding_conn [7] [])
   \<and> \<not> flushing (forwarding_conn [7] []) \<and> is_open (forwarding_conn [7] [])
   \<and> map_option write_buf (bev_of Input (forwarding_conn [7] [])) = Some [7]
   \<and> \<not> isl (error_or_eof (one_conn_state (forwarding_conn [7] [])) 0 Output Input)
   \<and> map_option eventcb
        (the_bev (projr (error_or_eof (one_conn_state (forwarding_conn [7] [])) 0 Output Input))
           0 Input) = Some (Some Output_event_cb)
   \<and> dispatch 1 plain_ext (Bev_event 0 Input {BEV_EVENT_EOF})
        (projr (error_or_eof (one_conn_state (forwarding_conn [7] [])) 0 Output Input))
       = Some (Inl Assertion_failed)"
proof -
  have a: "conns (one_conn_state (forwarding_conn [7] [])) 0 = Some (forwarding_conn [7] [])"
    by (simp add: one_conn_state_def)
  have b: "\<not> flushing (forwarding_conn [7] [])" "is_open (forwarding_conn [7] [])"
    by (simp_all add: forwarding_conn_def)
  have c: "bev_of Output (forwarding_conn [7] [])
             = Some (the (conn_output (forwarding_conn [7] [])))"
    "bev_of Input (forwarding_conn [7] []) = Some (the (conn_input (forwarding_conn [7] [])))"
    by (simp_all add: forwarding_conn_def)
  have d: "write_buf (the (conn_input (forwarding_conn [7] []))) \<noteq> []"
    by (simp add: forwarding_conn_def)
  have e: "Output \<noteq> Input" by simp
  from flush_side_gets_output_event_cb [OF a b c d e, of 1 plain_ext]
  obtain st' where
    r: "error_or_eof (one_conn_state (forwarding_conn [7] [])) 0 Output Input = Inr st'"
    and ev: "map_option eventcb (the_bev st' 0 Input) = Some (Some Output_event_cb)"
    and ab: "\<forall>what. dispatch 1 plain_ext (Bev_event 0 Input what) st'
                      = Some (Inl Assertion_failed)"
    by auto
  from r ev ab a b c show ?thesis by (simp add: forwarding_conn_def)
qed

subsection \<open>SOCKS failures\<close>

text \<open>
  C8. In \<open>socks_event_cb\<close>, an event that carries \<open>BEV_EVENT_ERROR\<close> while the
  SOCKS status is \<open>ST_HAVE_ADDR\<close> returns the state in which the input stream has
  write enabled and read disabled, its write buffer and the SOCKS state are what
  \<open>socks_send_reply\<close> made of them for the output socket's error, and its callbacks
  are \<open>(NULL, close_conn_on_flush, output_event_cb)\<close>. Nothing else changed: the
  connection is still registered, neither open nor flushing, so the generic
  \<open>output_event_cb\<close> did not run.
\<close>

theorem socks_event_connect_failed:
  assumes "conns st c = Some conn"
    and "conn_input conn = Some ib" and "conn_output conn = Some ob"
    and "socks_state conn = Some ss"
    and "socks_state_get_status ext ss = ST_HAVE_ADDR"
    and "BEV_EVENT_ERROR \<in> what"
    and "socks_send_reply ext ss (write_buf ib) (socket_error ob) = (ss1, wb)"
  shows "socks_event_cb ext st Output what (Conn_ptr c)
         = Inr (conn_store st c
             (conn\<lparr>socks_state := Some ss1,
                   conn_input :=
                     Some (ib\<lparr>write_buf := wb, readcb := None,
                              writecb := Some Close_conn_on_flush,
                              eventcb := Some Output_event_cb, cbarg := Conn_ptr c,
                              enabled := insert EV_WRITE (enabled ib) - {EV_READ}\<rparr>)\<rparr>))"
  using assms
  by (cases ib)
    (simp add: socks_event_cb_def conn_of_arg_def bev_is_def on_bev_def send_socks_reply_def
      bufferevent_enable_def bufferevent_disable_def bufferevent_setcb_def)

theorem socks_event_connect_failed_witness:
  "conns (one_conn_state (socks_conn ST_HAVE_ADDR [] (Some connecting_bev))) 0
     = Some (socks_conn ST_HAVE_ADDR [] (Some connecting_bev))
   \<and> socks_state_get_status plain_ext ST_HAVE_ADDR = ST_HAVE_ADDR
   \<and> BEV_EVENT_ERROR \<in> {BEV_EVENT_ERROR}
   \<and> socks_send_reply plain_ext ST_HAVE_ADDR [] 111 = (ST_SENT_REPLY, [5, 1])
   \<and> socks_event_cb plain_ext (one_conn_state (socks_conn ST_HAVE_ADDR [] (Some connecting_bev)))
         Output {BEV_EVENT_ERROR} (Conn_ptr 0)
       = Inr (one_conn_state
           \<lparr>proto = Some (), socks_state = Some ST_SENT_REPLY,
            conn_input = Some \<lparr>read_buf = [], write_buf = [5, 1], enabled = {EV_WRITE},
                         readcb = None, writecb = Some Close_conn_on_flush,
                         eventcb = Some Output_event_cb, cbarg = Conn_ptr 0,
                         socket_error = 0, peername = None\<rparr>,
            conn_output = Some connecting_bev,
            mode = LSN_SOCKS_CLIENT, flushing = False, is_open = False\<rparr>)"
proof -
  let ?conn = "socks_conn ST_HAVE_ADDR [] (Some connecting_bev)"
  have a: "conns (one_conn_state ?conn) 0 = Some ?conn" by (simp add: one_conn_state_def)
  have b: "conn_input ?conn = Some (the (conn_input ?conn))"
    "conn_output ?conn = Some connecting_bev" "socks_state ?conn = Some ST_HAVE_ADDR"
    by (simp_all add: socks_conn_def)
  have c: "socks_state_get_status plain_ext ST_HAVE_ADDR = ST_HAVE_ADDR"
    by (simp add: plain_ext_def)
  have d: "BEV_EVENT_ERROR \<in> {BEV_EVENT_ERROR}" by simp
  have e: "socks_send_reply plain_ext ST_HAVE_ADDR (write_buf (the (conn_input ?conn)))
             (socket_error connecting_bev) = (ST_SENT_REPLY, [5, 1])"
    by (simp add: plain_ext_def socks_conn_def connecting_bev_def)
  have f: "insert EV_WRITE {EV_READ, EV_WRITE} - {EV_READ} = {EV_WRITE}" by auto
  show ?thesis
    using socks_event_connect_failed [OF a b c d e]
    by (simp add: f socks_conn_def one_conn_state_def conn_store_def initial_state_def
        plain_ext_def)
qed

subsection \<open>Forwarding errors\<close>

lemma close_conn_closes:
  assumes "connections st = Some cs" and "conns st c = Some conn"
  shows "\<exists>st'. close_conn st c = Inr st' \<and> \<not> live st' c \<and> \<not> registered st' c"
  using assms
  by (simp add: close_conn_def conn_free_def live_def registered_def finish_shutdown_def
      Let_def)

lemma other_bev_both:
  assumes "conn_input conn = Some ib" and "conn_output conn = Some ob"
  shows "other_bev Input conn = Output" and "other_bev Output conn = Input"
  using assms by (simp_all add: other_bev_def bev_is_def)

lemma downstream_send_pending:
  assumes "conns st c = Some conn" and "proto conn = Some p"
    and "conn_input conn = Some ib" and "conn_output conn = Some ob"
    and "bev_of bev conn = Some b" and "bev_of (other_bev bev conn) conn = Some pb"
    and "proto_recv ext p (read_buf b) (write_buf pb) = (RECV_SEND_PENDING, p1, rb, wb)"
  shows "\<exists>conn2. downstream_read_cb ext st bev (Conn_ptr c) = Inr (conn_store st c conn2)"
proof (cases bev)
  case Input
  with assms show ?thesis
    by (cases "proto_send ext p1 rb wb")
      (auto simp: downstream_read_cb_def conn_of_arg_def other_bev_both send_pending_def)
next
  case Output
  with assms show ?thesis
    by (cases "proto_send ext p1 (read_buf ib) (write_buf ob)")
      (auto simp: downstream_read_cb_def conn_of_arg_def other_bev_both send_pending_def)
qed

lemma downstream_recv_bad:
  assumes "conns st c = Some conn" and "proto conn = Some p"
    and "bev_of bev conn = Some b" and "bev_of (other_bev bev conn) conn = Some pb"
    and "proto_recv ext p (read_buf b) (write_buf pb) = (RECV_BAD, p1, rb, wb)"
  shows "\<exists>conn1. downstream_read_cb ext st bev (Conn_ptr c)
                  = close_conn (conn_store st c conn1) c"
  using assms by (auto simp: downstream_read_cb_def conn_of_arg_def Let_def)

lemma upstream_send_failed:
  assumes "conns st c = Some conn" and "proto conn = Some p"
    and "bev_of bev conn = Some b" and "bev_of (other_bev bev conn) conn = Some pb"
    and "proto_send ext p (read_buf b) (write_buf pb) = (r, p1, rb, wb)" and "r < 0"
  shows "\<exists>conn1. upstream_read_cb ext st bev (Conn_ptr c)
                  = close_conn (conn_store st c conn1) c"
  using assms by (auto simp: upstream_read_cb_def conn_of_arg_def Let_def)

text \<open>
  C10. On a registered, live connection with both streams: when \<open>proto_recv\<close> answers
  \<open>RECV_SEND_PENDING\<close>, \<open>downstream_read_cb\<close> returns with the connection still
  live and registered and the registry untouched, whatever the follow-up
  \<open>proto_send\<close> returned; when \<open>proto_send\<close> returns a negative value in
  \<open>upstream_read_cb\<close>, or \<open>proto_recv\<close> answers \<open>RECV_BAD\<close>, the connection is
  closed: freed and out of the registry.
\<close>

theorem send_pending_result_discarded:
  assumes "connections st = Some cs" and "c \<in> set cs"
    and "conns st c = Some conn" and "proto conn = Some p"
    and "conn_input conn = Some ib" and "conn_output conn = Some ob"
    and "bev_of bev conn = Some b" and "bev_of (other_bev bev conn) conn = Some pb"
  shows "(proto_recv ext p (read_buf b) (write_buf pb) = (RECV_SEND_PENDING, p1, rb, wb)
          \<longrightarrow> (\<exists>st'. downstream_read_cb ext st bev (Conn_ptr c) = Inr st'
                 \<and> live st' c \<and> registered st' c \<and> connections st' = connections st
                 \<and> trace st' = trace st))
       \<and> (proto_send ext p (read_buf b) (write_buf pb) = (r, p1, rb, wb) \<and> r < 0
          \<longrightarrow> (\<exists>st'. upstream_read_cb ext st bev (Conn_ptr c) = Inr st'
                 \<and> \<not> live st' c \<and> \<not> registered st' c))
       \<and> (proto_recv ext p (read_buf b) (write_buf pb) = (RECV_BAD, p1, rb, wb)
          \<longrightarrow> (\<exists>st'. downstream_read_cb ext st bev (Conn_ptr c) = Inr st'
                 \<and> \<not> live st' c \<and> \<not> registered st' c))"
proof (intro conjI impI)
  assume "proto_recv ext p (read_buf b) (write_buf pb) = (RECV_SEND_PENDING, p1, rb, wb)"
  from downstream_send_pending [OF assms(3-8) this] obtain conn2 where
    "downstream_read_cb ext st bev (Conn_ptr c) = Inr (conn_store st c conn2)" by blast
  then show "\<exists>st'. downstream_read_cb ext st bev (Conn_ptr c) = Inr st'
                 \<and> live st' c \<and> registered st' c \<and> connections st' = connections st
                 \<and> trace st' = trace st"
    using assms(1,2) by (simp add: conn_store_def live_def registered_def)
next
  assume "proto_send ext p (read_buf b) (write_buf pb) = (r, p1, rb, wb) \<and> r < 0"
  then obtain conn1 where
    "upstream_read_cb ext st bev (Conn_ptr c) = close_conn (conn_store st c conn1) c"
    using upstream_send_failed [OF assms(3,4,7,8), of ext r p1 rb wb] by blast
  then show "\<exists>st'. upstream_read_cb ext st bev (Conn_ptr c) = Inr st'
                 \<and> \<not> live st' c \<and> \<not> registered st' c"
    using close_conn_closes [of "conn_store st c conn1" cs c conn1] assms(1)
    by (simp add: conn_store_def)
next
  assume "proto_recv ext p (read_buf b) (write_buf pb) = (RECV_BAD, p1, rb, wb)"
  then obtain conn1 where
    "downstream_read_cb ext st bev (Conn_ptr c) = close_conn (conn_store st c conn1) c"
    using downstream_recv_bad [OF assms(3,4,7,8), of ext p1 rb wb] by blast
  then show "\<exists>st'. downstream_read_cb ext st bev (Conn_ptr c) = Inr st'
                 \<and> \<not> live st' c \<and> \<not> registered st' c"
    using close_conn_closes [of "conn_store st c conn1" cs c conn1] assms(1)
    by (simp add: conn_store_def)
qed

theorem send_pending_result_discarded_witness:
  "connections (one_conn_state (forwarding_conn [] [])) = Some [0] \<and> 0 \<in> set [0::nat]
   \<and> conns (one_conn_state (forwarding_conn [] [])) 0 = Some (forwarding_conn [] [])
   \<and> proto_recv send_fails_ext () [] [] = (RECV_SEND_PENDING, (), [], [])
   \<and> proto_send send_fails_ext () [] [] = (- 1, (), [], [])
   \<and> downstream_read_cb send_fails_ext (one_conn_state (forwarding_conn [] [])) Output (Conn_ptr 0)
       = Inr (one_conn_state (forwarding_conn [] []))
   \<and> live (one_conn_state (forwarding_conn [] [])) 0
   \<and> registered (one_conn_state (forwarding_conn [] [])) 0
   \<and> upstream_read_cb send_fails_ext (one_conn_state (forwarding_conn [] [])) Input (Conn_ptr 0)
       = Inr (initial_state\<lparr>next_conn := 1\<rparr>)
   \<and> proto_recv recv_bad_ext () [] [] = (RECV_BAD, (), [], [])
   \<and> downstream_read_cb recv_bad_ext (one_conn_state (forwarding_conn [] [])) Output (Conn_ptr 0)
       = Inr (initial_state\<lparr>next_conn := 1\<rparr>)
   \<and> \<not> live (initial_state\<lparr>next_conn := 1\<rparr> :: (unit, socks_status_t) net_state) 0
   \<and> \<not> registered (initial_state\<lparr>next_conn := 1\<rparr> :: (unit, socks_status_t) net_state) 0"
proof -
  let ?conn = "forwarding_conn [] []"
  let ?st = "one_conn_state ?conn"
  have a: "connections ?st = Some [0]" "0 \<in> set [0::nat]" "conns ?st 0 = Some ?conn"
    "proto ?conn = Some ()" "conn_input ?conn = Some (the (conn_input ?conn))"
    "conn_output ?conn = Some (the (conn_output ?conn))"
    by (simp_all add: one_conn_state_def forwarding_conn_def)
  have o: "bev_of Output ?conn = Some (the (conn_output ?conn))"
    "bev_of (other_bev Output ?conn) ?conn = Some (the (conn_input ?conn))"
    by (simp_all add: forwarding_conn_def other_bev_def bev_is_def)
  have i: "bev_of Input ?conn = Some (the (conn_input ?conn))"
    "bev_of (other_bev Input ?conn) ?conn = Some (the (conn_output ?conn))"
    by (simp_all add: forwarding_conn_def other_bev_def bev_is_def)
  show ?thesis
    using send_pending_result_discarded [OF a o, of send_fails_ext "()" "[]" "[]" "- 1"]
      send_pending_result_discarded [OF a i, of send_fails_ext "()" "[]" "[]" "- 1"]
      send_pending_result_discarded [OF a o, of recv_bad_ext "()" "[]" "[]" "- 1"]
    by (simp add: send_fails_ext_def recv_bad_ext_def plain_ext_def one_conn_state_def
        forwarding_conn_def initial_state_def live_def registered_def
        downstream_read_cb_def upstream_read_cb_def conn_of_arg_def other_bev_def bev_is_def
        send_pending_def conn_store_def close_conn_def conn_free_def)
qed

subsection \<open>Pipelined data behind a SOCKS CONNECT\<close>

text \<open>
  C3. In \<open>socks_event_cb\<close>, a \<open>BEV_EVENT_CONNECTED\<close> event on a connection that still
  has its SOCKS state, with data waiting in the input stream's read buffer, does not
  process that data: the call \<open>downstream_read_cb(bev, conn->input)\<close> passes the input
  stream where the callback expects the connection, and the callback stops at its first
  use of the argument. This holds for every protocol and every SOCKS implementation.
\<close>

theorem socks_connected_pipelined_bad_cast:
  assumes "conns st c = Some conn"
    and "conn_input conn = Some ib" and "conn_output conn = Some ob"
    and "socks_state conn = Some ss"
    and "read_buf ib \<noteq> []"
    and "BEV_EVENT_CONNECTED \<in> what"
    and "\<not> (BEV_EVENT_ERROR \<in> what \<and> socks_state_get_status ext ss = ST_HAVE_ADDR)"
  shows "socks_event_cb ext st Output what (Conn_ptr c) = Inl Bad_cast"
proof -
  have "socks_connected ext st c Output = Inl Bad_cast"
    using assms(1-5)
    by (cases "peername ob";
        cases "socks_send_reply ext ss (write_buf ib) 0";
        cases "socks_send_reply ext
                 (socks_state_set_address ext ss (take sizeof_pointer (the (peername ob))))
                 (write_buf ib) 0")
      (simp_all add: socks_connected_def send_socks_reply_def on_bev_def
        bufferevent_setcb_def downstream_read_cb_def conn_of_arg_def)
  with assms(1,3,4,6,7) show ?thesis
    by (auto simp: socks_event_cb_def conn_of_arg_def bev_is_def)
qed

theorem socks_connected_pipelined_bad_cast_witness:
  "conns (one_conn_state (socks_conn ST_HAVE_ADDR [71, 69, 84] (Some connecting_bev))) 0
     = Some (socks_conn ST_HAVE_ADDR [71, 69, 84] (Some connecting_bev))
   \<and> BEV_EVENT_CONNECTED \<in> {BEV_EVENT_CONNECTED}
   \<and> BEV_EVENT_ERROR \<notin> {BEV_EVENT_CONNECTED}
   \<and> socks_event_cb plain_ext
        (one_conn_state (socks_conn ST_HAVE_ADDR [71, 69, 84] (Some connecting_bev)))
        Output {BEV_EVENT_CONNECTED} (Conn_ptr 0) = Inl Bad_cast"
proof -
  let ?conn = "socks_conn ST_HAVE_ADDR [71, 69, 84] (Some connecting_bev)"
  have a: "conns (one_conn_state ?conn) 0 = Some ?conn" by (simp add: one_conn_state_def)
  have b: "conn_input ?conn = Some (the (conn_input ?conn))"
    "conn_output ?conn = Some connecting_bev" "socks_state ?conn = Some ST_HAVE_ADDR"
    "read_buf (the (conn_input ?conn)) \<noteq> []"
    by (simp_all add: socks_conn_def)
  have c: "BEV_EVENT_CONNECTED \<in> {BEV_EVENT_CONNECTED}" by simp
  have d: "\<not> (BEV_EVENT_ERROR \<in> {BEV_EVENT_CONNECTED}
              \<and> socks_state_get_status plain_ext ST_HAVE_ADDR = ST_HAVE_ADDR)" by simp
  from socks_connected_pipelined_bad_cast [OF a b c d] a show ?thesis by simp
qed

subsection \<open>Shutdown\<close>

lemma shutdown_call_exact:
  assumes "shutdown_call_run x st = Inr st'"
  shows "finish_shutdown_calls st'
           = finish_shutdown_calls st + (if shutting_down st' \<and> registry_empty st' then 1 else 0)"
    and "connections st' \<noteq> Some []"
    and "shutting_down st \<Longrightarrow> shutting_down st'"
    and "shutting_down st' \<Longrightarrow> \<not> shutting_down st \<Longrightarrow> is_start_shutdown x"
  using assms
  by (cases x;
      auto simp: start_shutdown_def close_all_connections_def close_conn_def conn_free_def
        finish_shutdown_def registry_empty_def finish_shutdown_calls_def Let_def
        split: if_splits sum.splits option.splits dest: free_each_frame)+

lemma shutdown_done_stable:
  assumes "shutting_down st" and "connections st = None"
    and "shutdown_call_run x st = Inr st'"
  shows "is_start_shutdown x \<and> shutting_down st' \<and> connections st' = None
         \<and> finish_shutdown_calls st' = Suc (finish_shutdown_calls st)"
  using assms
  by (cases x)
    (auto simp: start_shutdown_def close_all_connections_def close_conn_def
      finish_shutdown_def finish_shutdown_calls_def Let_def
      split: if_splits sum.splits option.splits)

lemma shutdown_done_run:
  assumes "shutting_down st" and "connections st = None"
    and "shutdown_calls_run xs st = Inr st'"
  shows "finish_shutdown_calls st' = finish_shutdown_calls st + length xs
         \<and> (\<forall>x\<in>set xs. is_start_shutdown x)"
  using assms
proof (induction xs arbitrary: st)
  case Nil
  then show ?case by simp
next
  case (Cons x xs)
  from Cons.prems(3) obtain st1 where
    s1: "shutdown_call_run x st = Inr st1" and s2: "shutdown_calls_run xs st1 = Inr st'"
    by (auto split: sum.splits)
  from shutdown_done_stable [OF Cons.prems(1,2) s1] Cons.IH [of st1, OF _ _ s2]
  show ?case by simp
qed

lemma shutdown_run_split:
  assumes "shutdown_calls_run xs st = Inr st'"
    and "shutting_down st'" and "registry_empty st'"
    and "\<not> shutting_down st"
  shows "\<exists>ys z zs s. xs = ys @ z # zs
           \<and> shutdown_calls_run ys st = Inr s
           \<and> finish_shutdown_calls s = finish_shutdown_calls st
           \<and> finish_shutdown_calls st' = finish_shutdown_calls st + 1 + length zs
           \<and> (\<forall>x\<in>set zs. is_start_shutdown x)
           \<and> (\<exists>x\<in>set (ys @ [z]). is_start_shutdown x)"
  using assms
proof (induction xs arbitrary: st)
  case Nil
  then show ?case by simp
next
  case (Cons x xs)
  from Cons.prems(1) obtain st1 where
    s1: "shutdown_call_run x st = Inr st1" and s2: "shutdown_calls_run xs st1 = Inr st'"
    by (auto split: sum.splits)
  note e = shutdown_call_exact [OF s1]
  show ?case
  proof (cases "shutting_down st1")
    case sd: True
    with e(4) Cons.prems(4) have sx: "is_start_shutdown x" by simp
    show ?thesis
    proof (cases "registry_empty st1")
      case True
      with e(2) have n: "connections st1 = None"
        by (auto simp: registry_empty_def split: option.splits)
      from shutdown_done_run [OF sd n s2] e(1) sd True sx
      have "x # xs = [] @ x # xs \<and> shutdown_calls_run [] st = Inr st
           \<and> finish_shutdown_calls st = finish_shutdown_calls st
           \<and> finish_shutdown_calls st' = finish_shutdown_calls st + 1 + length xs
           \<and> (\<forall>x\<in>set xs. is_start_shutdown x)
           \<and> (\<exists>y\<in>set ([] @ [x]). is_start_shutdown y)"
        by simp
      then show ?thesis by blast
    next
      case False
      have "\<exists>ys z zs s. xs = ys @ z # zs
           \<and> shutdown_calls_run ys st1 = Inr s
           \<and> finish_shutdown_calls s = finish_shutdown_calls st1
           \<and> finish_shutdown_calls st' = finish_shutdown_calls st1 + 1 + length zs
           \<and> (\<forall>x\<in>set zs. is_start_shutdown x)"
        using s2 Cons.prems(2,3) sd False
      proof (induction xs arbitrary: st1)
        case Nil
        then show ?case by simp
      next
        case (Cons y ys)
        from Cons.prems(1) obtain st2 where
          t1: "shutdown_call_run y st1 = Inr st2" and t2: "shutdown_calls_run ys st2 = Inr st'"
          by (auto split: sum.splits)
        note f = shutdown_call_exact [OF t1]
        from f(3) Cons.prems(4) have sd2: "shutting_down st2" by simp
        show ?case
        proof (cases "registry_empty st2")
          case True
          with f(2) have n: "connections st2 = None"
            by (auto simp: registry_empty_def split: option.splits)
          from shutdown_done_run [OF sd2 n t2] f(1) sd2 True
          have "y # ys = [] @ y # ys \<and> shutdown_calls_run [] st1 = Inr st1
             \<and> finish_shutdown_calls st1 = finish_shutdown_calls st1
             \<and> finish_shutdown_calls st' = finish_shutdown_calls st1 + 1 + length ys
             \<and> (\<forall>x\<in>set ys. is_start_shutdown x)"
            by simp
          then show ?thesis by blast
        next
          case False
          from Cons.IH [OF t2 Cons.prems(2,3) sd2 False] obtain us z zs s where
            u: "ys = us @ z # zs" "shutdown_calls_run us st2 = Inr s"
              "finish_shutdown_calls s = finish_shutdown_calls st2"
              "finish_shutdown_calls st' = finish_shutdown_calls st2 + 1 + length zs"
              "\<forall>x\<in>set zs. is_start_shutdown x"
            by blast
          from u f(1) sd2 False t1
          have "y # ys = (y # us) @ z # zs \<and> shutdown_calls_run (y # us) st1 = Inr s
             \<and> finish_shutdown_calls s = finish_shutdown_calls st1
             \<and> finish_shutdown_calls st' = finish_shutdown_calls st1 + 1 + length zs
             \<and> (\<forall>x\<in>set zs. is_start_shutdown x)"
            by simp
          then show ?thesis by blast
        qed
      qed
      then obtain us z zs s where
        u: "xs = us @ z # zs" "shutdown_calls_run us st1 = Inr s"
          "finish_shutdown_calls s = finish_shutdown_calls st1"
          "finish_shutdown_calls st' = finish_shutdown_calls st1 + 1 + length zs"
          "\<forall>x\<in>set zs. is_start_shutdown x"
        by blast
      from u e(1) sd False s1 sx
      have "x # xs = (x # us) @ z # zs \<and> shutdown_calls_run (x # us) st = Inr s
           \<and> finish_shutdown_calls s = finish_shutdown_calls st
           \<and> finish_shutdown_calls st' = finish_shutdown_calls st + 1 + length zs
           \<and> (\<forall>x\<in>set zs. is_start_shutdown x)
           \<and> (\<exists>y\<in>set ((x # us) @ [z]). is_start_shutdown y)"
        by simp
      then show ?thesis by blast
    qed
  next
    case False
    from Cons.IH [OF s2 Cons.prems(2,3) False] obtain us z zs s where
      u: "xs = us @ z # zs" "shutdown_calls_run us st1 = Inr s"
        "finish_shutdown_calls s = finish_shutdown_calls st1"
        "finish_shutdown_calls st' = finish_shutdown_calls st1 + 1 + length zs"
        "\<forall>x\<in>set zs. is_start_shutdown x"
        "\<exists>x\<in>set (us @ [z]). is_start_shutdown x"
      by blast
    from u e(1) False s1
    have "x # xs = (x # us) @ z # zs \<and> shutdown_calls_run (x # us) st = Inr s
           \<and> finish_shutdown_calls s = finish_shutdown_calls st
           \<and> finish_shutdown_calls st' = finish_shutdown_calls st + 1 + length zs
           \<and> (\<forall>x\<in>set zs. is_start_shutdown x)
           \<and> (\<exists>y\<in>set ((x # us) @ [z]). is_start_shutdown y)"
      by auto
    then show ?thesis by blast
  qed
qed

lemma start_shutdown_again:
  "registry_empty st \<Longrightarrow> start_shutdown barbaric st = Inr st' \<Longrightarrow>
   finish_shutdown_calls st' = Suc (finish_shutdown_calls st)"
  by (auto simp: start_shutdown_def close_all_connections_def finish_shutdown_def
      registry_empty_def finish_shutdown_calls_def Let_def
      split: if_splits sum.splits option.splits dest: free_each_frame)

lemma start_shutdown_calls_some:
  "\<exists>x\<in>set ys. is_start_shutdown x \<Longrightarrow> 1 \<le> start_shutdown_calls ys"
  by (induction ys) (auto simp: start_shutdown_calls_def)

text \<open>
  C2, as the code has it. Take any sequence of \<open>start_shutdown\<close> and \<open>close_conn\<close>
  calls that starts before shutdown was requested and ends with \<open>shutting_down\<close> set
  and the connection registry empty. Then \<open>finish_shutdown\<close> was not called before
  the call that first reached that state, was called exactly once by that call, and
  exactly once more by each call after it, all of which are \<open>start_shutdown\<close> calls.
  So it is never skipped, it has been called exactly once when \<open>start_shutdown\<close> was
  called once, and never more often than \<open>start_shutdown\<close> was called; a second
  invocation comes only from a repeated \<open>start_shutdown\<close>, which on such a state
  always adds one. Any single call adds one invocation exactly when it returns with
  \<open>shutting_down\<close> set and the registry empty, and none otherwise.
\<close>

theorem finish_shutdown_exact_count:
  assumes "\<not> shutting_down st0"
    and "shutdown_calls_run xs st0 = Inr st"
    and "shutting_down st"
    and "registry_empty st"
  shows "(\<exists>ys z zs s. xs = ys @ z # zs
            \<and> shutdown_calls_run ys st0 = Inr s
            \<and> finish_shutdown_calls s = finish_shutdown_calls st0
            \<and> finish_shutdown_calls st = finish_shutdown_calls st0 + 1 + length zs
            \<and> (\<forall>x\<in>set zs. is_start_shutdown x))
       \<and> finish_shutdown_calls st0 + 1 \<le> finish_shutdown_calls st
       \<and> finish_shutdown_calls st \<le> finish_shutdown_calls st0 + start_shutdown_calls xs
       \<and> (start_shutdown_calls xs = 1
            \<longrightarrow> finish_shutdown_calls st = finish_shutdown_calls st0 + 1)
       \<and> (\<forall>barbaric st'. start_shutdown barbaric st = Inr st'
            \<longrightarrow> finish_shutdown_calls st' = Suc (finish_shutdown_calls st))
       \<and> (\<forall>x s s'. shutdown_call_run x s = Inr s'
            \<longrightarrow> finish_shutdown_calls s'
                  = finish_shutdown_calls s
                    + (if shutting_down s' \<and> registry_empty s' then 1 else 0))"
proof -
  from shutdown_run_split [OF assms(2,3,4,1)] obtain ys z zs s where
    u: "xs = ys @ z # zs" "shutdown_calls_run ys st0 = Inr s"
      "finish_shutdown_calls s = finish_shutdown_calls st0"
      "finish_shutdown_calls st = finish_shutdown_calls st0 + 1 + length zs"
      "\<forall>x\<in>set zs. is_start_shutdown x"
      "\<exists>x\<in>set (ys @ [z]). is_start_shutdown x"
    by blast
  have n: "start_shutdown_calls xs = start_shutdown_calls (ys @ [z]) + length zs"
    using u(5) unfolding u(1) by (simp add: start_shutdown_calls_def)
  have m: "1 \<le> start_shutdown_calls (ys @ [z])"
    using u(6) by (rule start_shutdown_calls_some)
  have first: "\<exists>ys z zs s. xs = ys @ z # zs
            \<and> shutdown_calls_run ys st0 = Inr s
            \<and> finish_shutdown_calls s = finish_shutdown_calls st0
            \<and> finish_shutdown_calls st = finish_shutdown_calls st0 + 1 + length zs
            \<and> (\<forall>x\<in>set zs. is_start_shutdown x)"
    using u(1-5) by blast
  have lower: "finish_shutdown_calls st0 + 1 \<le> finish_shutdown_calls st"
    using u(4) by simp
  have upper: "finish_shutdown_calls st \<le> finish_shutdown_calls st0 + start_shutdown_calls xs"
    using u(4) n m by simp
  have once: "start_shutdown_calls xs = 1
                \<longrightarrow> finish_shutdown_calls st = finish_shutdown_calls st0 + 1"
    using lower upper by simp
  have again: "\<forall>barbaric st'. start_shutdown barbaric st = Inr st'
                 \<longrightarrow> finish_shutdown_calls st' = Suc (finish_shutdown_calls st)"
    using start_shutdown_again [OF assms(4)] by blast
  have each: "\<forall>x s s'. shutdown_call_run x s = Inr s'
                \<longrightarrow> finish_shutdown_calls s'
                      = finish_shutdown_calls s
                        + (if shutting_down s' \<and> registry_empty s' then 1 else 0)"
    using shutdown_call_exact(1) by blast
  from first lower upper once again each show ?thesis by blast
qed

theorem finish_shutdown_exact_count_witness:
  "\<not> shutting_down (one_conn_state (forwarding_conn [] []))
   \<and> shutdown_calls_run [Start_shutdown False, Close_conn 0]
        (one_conn_state (forwarding_conn [] []))
       = Inr (initial_state\<lparr>shutting_down := True, next_conn := 1, trace := [Finish_shutdown]\<rparr>)
   \<and> shutting_down (initial_state\<lparr>shutting_down := True, next_conn := 1,
                       trace := [Finish_shutdown]\<rparr> :: (unit, socks_status_t) net_state)
   \<and> registry_empty (initial_state\<lparr>shutting_down := True, next_conn := 1,
                       trace := [Finish_shutdown]\<rparr> :: (unit, socks_status_t) net_state)
   \<and> start_shutdown_calls [Start_shutdown False, Close_conn 0] = 1
   \<and> finish_shutdown_calls (one_conn_state (forwarding_conn [] [])) = 0
   \<and> finish_shutdown_calls (initial_state\<lparr>shutting_down := True, next_conn := 1,
                       trace := [Finish_shutdown]\<rparr> :: (unit, socks_status_t) net_state) = 1
   \<and> start_shutdown True (initial_state\<lparr>shutting_down := True, next_conn := 1,
                       trace := [Finish_shutdown]\<rparr> :: (unit, socks_status_t) net_state)
       = Inr (initial_state\<lparr>shutting_down := True, next_conn := 1,
                            trace := [Finish_shutdown, Finish_shutdown]\<rparr>)
   \<and> finish_shutdown_calls (initial_state\<lparr>shutting_down := True, next_conn := 1,
                       trace := [Finish_shutdown, Finish_shutdown]\<rparr>
                       :: (unit, socks_status_t) net_state) = 2"
proof -
  let ?s0 = "one_conn_state (forwarding_conn [] [])"
  let ?s1 = "initial_state\<lparr>shutting_down := True, next_conn := 1, trace := [Finish_shutdown]\<rparr>
               :: (unit, socks_status_t) net_state"
  have a: "\<not> shutting_down ?s0" by (simp add: one_conn_state_def initial_state_def)
  have b: "shutdown_calls_run [Start_shutdown False, Close_conn 0] ?s0 = Inr ?s1"
    by (simp add: start_shutdown_def close_conn_def conn_free_def finish_shutdown_def
        one_conn_state_def initial_state_def)
  have c: "shutting_down ?s1" by simp
  have d: "registry_empty ?s1" by (simp add: registry_empty_def initial_state_def)
  have e: "start_shutdown True ?s1
             = Inr (initial_state\<lparr>shutting_down := True, next_conn := 1,
                                  trace := [Finish_shutdown, Finish_shutdown]\<rparr>)"
    by (simp add: start_shutdown_def initial_state_def finish_shutdown_def
        close_all_connections_def)
  have f: "start_shutdown_calls [Start_shutdown False, Close_conn 0] = 1"
    by (simp add: start_shutdown_calls_def)
  have g: "finish_shutdown_calls ?s0 = 0"
    by (simp add: finish_shutdown_calls_def one_conn_state_def initial_state_def)
  from finish_shutdown_exact_count [OF a b c d] a b c d e f g show ?thesis
    by (simp add: finish_shutdown_calls_def)
qed

text \<open>
  C2 as stated fails: two graceful \<open>start_shutdown\<close> calls on a process with no
  connections leave \<open>shutting_down\<close> set, the registry empty, and \<open>finish_shutdown\<close>
  called twice.
\<close>

theorem finish_shutdown_twice_counterexample:
  "\<not> isl (shutdown_calls_run [Start_shutdown False, Start_shutdown False]
            (initial_state :: (unit, unit) net_state))
   \<and> shutting_down (projr (shutdown_calls_run [Start_shutdown False, Start_shutdown False]
            (initial_state :: (unit, unit) net_state)))
   \<and> registry_empty (projr (shutdown_calls_run [Start_shutdown False, Start_shutdown False]
            (initial_state :: (unit, unit) net_state)))
   \<and> finish_shutdown_calls (projr (shutdown_calls_run [Start_shutdown False, Start_shutdown False]
            (initial_state :: (unit, unit) net_state))) = 2"
  by (simp add: start_shutdown_def initial_state_def finish_shutdown_def registry_empty_def
      finish_shutdown_calls_def)

subsection \<open>The SOCKS negotiation loop\<close>

lemma socks_good_passes_then_loop:
  "socks_good_passes n ext st c bev = Some st_n \<Longrightarrow>
   socks_read_loop (n + m) ext st c bev = socks_read_loop m ext st_n c bev"
proof (induction n arbitrary: st)
  case 0
  then show ?case by simp
next
  case (Suc n)
  then show ?case
    by (auto split: option.splits if_splits prod.splits)
qed

lemma socks_read_loop_exit:
  "socks_read_loop fuel ext st c bev = Some res \<Longrightarrow>
   \<exists>n st_n. n < fuel \<and> socks_good_passes n ext st c bev = Some st_n
     \<and> socks_read_loop 1 ext st_n c bev = Some res"
proof (induction fuel arbitrary: st)
  case 0
  then show ?case by simp
next
  case (Suc f)
  show ?case
  proof (cases "socks_good_passes 1 ext st c bev")
    case None
    with Suc.prems have "socks_read_loop 1 ext st c bev = Some res"
      by (auto split: option.splits if_splits prod.splits)
    then have "0 < Suc f \<and> socks_good_passes 0 ext st c bev = Some st
        \<and> socks_read_loop 1 ext st c bev = Some res" by simp
    then show ?thesis by blast
  next
    case (Some st1)
    from socks_good_passes_then_loop [OF Some, of f] Suc.prems
    have "socks_read_loop f ext st1 c bev = Some res" by simp
    from Suc.IH [OF this] obtain n st_n where
      n: "n < f" "socks_good_passes n ext st1 c bev = Some st_n"
        "socks_read_loop 1 ext st_n c bev = Some res" by blast
    from Some n(2) have "socks_good_passes (Suc n) ext st c bev = Some st_n"
      by (auto split: option.splits if_splits prod.splits)
    with n(1,3) have "Suc n < Suc f \<and> socks_good_passes (Suc n) ext st c bev = Some st_n
        \<and> socks_read_loop 1 ext st_n c bev = Some res" by simp
    then show ?thesis by blast
  qed
qed

text \<open>
  The loop head of \<open>socks_read_cb\<close> at any iteration: when the parser answers
  \<open>SOCKS_CMD_NOT_CONNECT\<close>, the callback returns there.
\<close>

lemma socks_read_loop_cmd_not_connect:
  assumes "conns st c = Some conn" and "conn_input conn = Some ib"
    and "socks_state conn = Some ss"
    and "socks_state_get_status ext ss \<noteq> ST_SENT_REPLY"
    and "socks_state_get_status ext ss \<noteq> ST_HAVE_ADDR"
    and "handle_socks ext (read_buf ib) (write_buf ib) ss = (SOCKS_CMD_NOT_CONNECT, rb, wb, ss1)"
    and "socks5_send_reply ext wb ss1 SOCKS5_FAILED_UNSUPPORTED = (wb2, ss2)"
  shows "socks_read_loop (Suc fuel) ext st c Input
         = Some (Inr (conn_store st c
             (conn\<lparr>socks_state := Some ss2,
                   conn_input :=
                     Some (ib\<lparr>read_buf := rb, write_buf := wb2, readcb := None,
                              writecb := Some Close_conn_on_flush,
                              eventcb := Some Output_event_cb, cbarg := Conn_ptr c,
                              enabled := insert EV_WRITE (enabled ib) - {EV_READ}\<rparr>)\<rparr>)))"
  using assms
  by (cases ib)
    (simp add: socks_read_done_def conn_store_def on_bev_def send_socks5_reply_def
      bufferevent_enable_def bufferevent_disable_def bufferevent_setcb_def)

text \<open>
  C7. Whenever \<open>handle_socks\<close> returns \<open>SOCKS_CMD_NOT_CONNECT\<close> in
  \<open>socks_read_cb\<close>, on the first pass of the loop or after any number of passes that
  returned \<open>SOCKS_GOOD\<close>, the callback returns the state in which the input stream
  has read disabled and write enabled, the SOCKS5 ``command unsupported'' reply is in
  its write buffer, and its callbacks are \<open>(NULL, close_conn_on_flush,
  output_event_cb)\<close>. The write-complete callback then closes the connection exactly
  when the write buffer is empty. Every return of the loop leaves from a loop head that
  was reached by \<open>SOCKS_GOOD\<close> passes only.
\<close>

theorem socks_cmd_not_connect:
  assumes "conns st0 c = Some conn0" and "conn_input conn0 = Some ib0"
    and "socks_good_passes n ext st0 c Input = Some st"
    and "conns st c = Some conn" and "conn_input conn = Some ib"
    and "socks_state conn = Some ss"
    and "socks_state_get_status ext ss \<noteq> ST_SENT_REPLY"
    and "socks_state_get_status ext ss \<noteq> ST_HAVE_ADDR"
    and "handle_socks ext (read_buf ib) (write_buf ib) ss = (SOCKS_CMD_NOT_CONNECT, rb, wb, ss1)"
    and "socks5_send_reply ext wb ss1 SOCKS5_FAILED_UNSUPPORTED = (wb2, ss2)"
    and "replied = ib\<lparr>read_buf := rb, write_buf := wb2, readcb := None,
                       writecb := Some Close_conn_on_flush,
                       eventcb := Some Output_event_cb, cbarg := Conn_ptr c,
                       enabled := insert EV_WRITE (enabled ib) - {EV_READ}\<rparr>"
    and "st1 = conn_store st c (conn\<lparr>socks_state := Some ss2, conn_input := Some replied\<rparr>)"
    and "st2 = conn_store st c
                 (conn\<lparr>socks_state := Some ss2,
                       conn_input := Some (replied\<lparr>write_buf := []\<rparr>)\<rparr>)"
  shows "socks_read_cb (Suc (n + fuel)) ext st0 Input (Conn_ptr c) = Some (Inr st1)
       \<and> dispatch fuel ext (Write_complete c Input) st1
           = Some (if wb2 = [] then close_conn st1 c else Inr st1)
       \<and> dispatch fuel ext (Write_complete c Input) st2 = Some (close_conn st2 c)
       \<and> (\<forall>k res. socks_read_cb k ext st0 Input (Conn_ptr c) = Some res
            \<longrightarrow> (\<exists>m sm. m < k \<and> socks_good_passes m ext st0 c Input = Some sm
                   \<and> socks_read_loop 1 ext sm c Input = Some res))"
proof (intro conjI)
  have "socks_read_loop (n + Suc fuel) ext st0 c Input = socks_read_loop (Suc fuel) ext st c Input"
    using assms(3) by (rule socks_good_passes_then_loop)
  then show "socks_read_cb (Suc (n + fuel)) ext st0 Input (Conn_ptr c) = Some (Inr st1)"
    using socks_read_loop_cmd_not_connect [OF assms(4-10), of fuel] assms(1,2,11,12)
    by (simp add: socks_read_cb_def conn_of_arg_def bev_is_def)
  show "dispatch fuel ext (Write_complete c Input) st1
           = Some (if wb2 = [] then close_conn st1 c else Inr st1)"
    using write_complete_close_conn_on_flush
      [of st1 c "conn\<lparr>socks_state := Some ss2, conn_input := Some replied\<rparr>" Input replied
          fuel ext] assms(11,12)
    by (simp add: conn_store_def)
  show "dispatch fuel ext (Write_complete c Input) st2 = Some (close_conn st2 c)"
    using write_complete_close_conn_on_flush
      [of st2 c "conn\<lparr>socks_state := Some ss2,
                      conn_input := Some (replied\<lparr>write_buf := []\<rparr>)\<rparr>" Input
          "replied\<lparr>write_buf := []\<rparr>" fuel ext] assms(11,13)
    by (simp add: conn_store_def)
  show "\<forall>k res. socks_read_cb k ext st0 Input (Conn_ptr c) = Some res
            \<longrightarrow> (\<exists>m sm. m < k \<and> socks_good_passes m ext st0 c Input = Some sm
                   \<and> socks_read_loop 1 ext sm c Input = Some res)"
    using assms(1,2) socks_read_loop_exit [of _ ext st0 c Input]
    by (simp add: socks_read_cb_def conn_of_arg_def bev_is_def)
qed

theorem socks_cmd_not_connect_witness:
  "conns (one_conn_state (socks_conn ST_WAITING [5, 1, 0, 5, 2, 0, 1] None)) 0
     = Some (socks_conn ST_WAITING [5, 1, 0, 5, 2, 0, 1] None)
   \<and> handle_socks negotiating_ext [5, 1, 0, 5, 2, 0, 1] [] ST_WAITING
       = (SOCKS_GOOD, [5, 2, 0, 1], [5, 0], ST_NEGOTIATION_DONE)
   \<and> handle_socks negotiating_ext [5, 2, 0, 1] [5, 0] ST_NEGOTIATION_DONE
       = (SOCKS_CMD_NOT_CONNECT, [], [5, 0], ST_NEGOTIATION_DONE)
   \<and> socks5_send_reply negotiating_ext [5, 0] ST_NEGOTIATION_DONE SOCKS5_FAILED_UNSUPPORTED
       = ([5, 0, 5, 7], ST_SENT_REPLY)
   \<and> socks_read_cb 2 negotiating_ext
        (one_conn_state (socks_conn ST_WAITING [5, 1, 0, 5, 2, 0, 1] None)) Input (Conn_ptr 0)
       = Some (Inr (one_conn_state
           \<lparr>proto = Some (), socks_state = Some ST_SENT_REPLY,
            conn_input = Some \<lparr>read_buf = [], write_buf = [5, 0, 5, 7], enabled = {EV_WRITE},
                         readcb = None, writecb = Some Close_conn_on_flush,
                         eventcb = Some Output_event_cb, cbarg = Conn_ptr 0,
                         socket_error = 0, peername = None\<rparr>,
            conn_output = None,
            mode = LSN_SOCKS_CLIENT, flushing = False, is_open = False\<rparr>))
   \<and> dispatch 0 negotiating_ext (Write_complete 0 Input)
        (one_conn_state
           \<lparr>proto = Some (), socks_state = Some ST_SENT_REPLY,
            conn_input = Some \<lparr>read_buf = [], write_buf = [], enabled = {EV_WRITE},
                         readcb = None, writecb = Some Close_conn_on_flush,
                         eventcb = Some Output_event_cb, cbarg = Conn_ptr 0,
                         socket_error = 0, peername = None\<rparr>,
            conn_output = None,
            mode = LSN_SOCKS_CLIENT, flushing = False, is_open = False\<rparr>)
       = Some (Inr (initial_state\<lparr>next_conn := 1\<rparr>))"
proof -
  let ?entry = "socks_conn ST_WAITING [5, 1, 0, 5, 2, 0, 1] None"
  let ?head = "(socks_conn ST_NEGOTIATION_DONE [5, 2, 0, 1] None)
                 \<lparr>conn_input := Some ((the (conn_input
                      (socks_conn ST_NEGOTIATION_DONE [5, 2, 0, 1] None)))\<lparr>write_buf := [5, 0]\<rparr>)\<rparr>"
  have a: "conns (one_conn_state ?entry) 0 = Some ?entry" by (simp add: one_conn_state_def)
  have a2: "conn_input ?entry = Some (the (conn_input ?entry))" by (simp add: socks_conn_def)
  have p: "socks_good_passes (Suc 0) negotiating_ext (one_conn_state ?entry) 0 Input
             = Some (one_conn_state ?head)"
    by (simp add: one_conn_state_def socks_conn_def negotiating_ext_def plain_ext_def
        conn_store_def initial_state_def)
  have b: "conns (one_conn_state ?head) 0 = Some ?head" by (simp add: one_conn_state_def)
  have b2: "conn_input ?head = Some (the (conn_input ?head))"
    "socks_state ?head = Some ST_NEGOTIATION_DONE"
    by (simp_all add: socks_conn_def)
  have c: "socks_state_get_status negotiating_ext ST_NEGOTIATION_DONE \<noteq> ST_SENT_REPLY"
    "socks_state_get_status negotiating_ext ST_NEGOTIATION_DONE \<noteq> ST_HAVE_ADDR"
    by (simp_all add: negotiating_ext_def plain_ext_def)
  have d: "handle_socks negotiating_ext (read_buf (the (conn_input ?head)))
             (write_buf (the (conn_input ?head))) ST_NEGOTIATION_DONE
           = (SOCKS_CMD_NOT_CONNECT, [], [5, 0], ST_NEGOTIATION_DONE)"
    by (simp add: negotiating_ext_def plain_ext_def socks_conn_def)
  have e: "socks5_send_reply negotiating_ext [5, 0] ST_NEGOTIATION_DONE SOCKS5_FAILED_UNSUPPORTED
             = ([5, 0, 5, 7], ST_SENT_REPLY)"
    by (simp add: negotiating_ext_def plain_ext_def SOCKS5_FAILED_UNSUPPORTED_def)
  have f: "insert EV_WRITE {EV_READ, EV_WRITE} - {EV_READ} = {EV_WRITE}" by auto
  have g: "1 + 0 = (1::nat)" by simp
  show ?thesis
    using socks_cmd_not_connect [OF a a2 p b b2 c d e refl refl refl, of 0]
    by (simp add: f socks_conn_def one_conn_state_def conn_store_def initial_state_def
        negotiating_ext_def plain_ext_def SOCKS5_FAILED_UNSUPPORTED_def close_conn_def
        conn_free_def numeral_2_eq_2)
qed

subsection \<open>Handshake and connect\<close>

lemma simple_client_handshake_first:
  assumes "simple_client_listener_cb ext st lsn fd = Inr st'"
    and "params_heap st (proto_params lsn) = Some params"
    and "proto_create ext params = Some p"
    and "proto_handshake ext p [] = (r, p1, wb)"
    and "conns st (next_conn st) = None"
  shows "(\<exists>rest. trace st' = trace st @ rest
            \<and> (Socket_connect (next_conn st) \<in> set rest \<longrightarrow>
                 rest = [Proto_handshake (next_conn st) Output, Socket_connect (next_conn st)]))
       \<and> (live st' (next_conn st) \<longrightarrow>
            map_option write_buf (the_bev st' (next_conn st) Output) = Some wb
            \<and> map_option write_buf (the_bev st' (next_conn st) Input) = Some [])"
  using assms
  by (auto simp: simple_client_listener_cb_def Let_def accept_err_def log_call_def
      register_conn_def conn_store_def live_def the_bev_def zeroed_conn_def
      bufferevent_setcb_def bufferevent_enable_def new_bufferevent_def
      split: if_splits option.splits)

lemma simple_server_handshake_first:
  assumes "simple_server_listener_cb ext st lsn fd = Inr st'"
    and "params_heap st (proto_params lsn) = Some params"
    and "proto_create ext params = Some p"
    and "proto_handshake ext p [] = (r, p1, wb)"
    and "conns st (next_conn st) = None"
  shows "(\<exists>rest. trace st' = trace st @ rest
            \<and> (Socket_connect (next_conn st) \<in> set rest \<longrightarrow>
                 rest = [Proto_handshake (next_conn st) Input, Socket_connect (next_conn st)]))
       \<and> (live st' (next_conn st) \<longrightarrow>
            map_option write_buf (the_bev st' (next_conn st) Input) = Some wb
            \<and> map_option write_buf (the_bev st' (next_conn st) Output) = Some [])"
  using assms
  by (auto simp: simple_server_listener_cb_def Let_def accept_err_def log_call_def
      register_conn_def conn_store_def live_def the_bev_def zeroed_conn_def
      bufferevent_setcb_def bufferevent_enable_def new_bufferevent_def
      split: if_splits option.splits)

lemma socks_attach_handshake_first:
  assumes "socks_attach_outbound ext st c conn ss = Inr st'"
    and "proto conn = Some p"
    and "proto_handshake ext p [] = (r, p1, wb)"
  shows "\<exists>rest. trace st' = trace st @ rest
           \<and> (Socket_connect c \<in> set rest \<longrightarrow>
                take 2 rest = [Proto_handshake c Output, Socket_connect c]
                \<and> (live st' c \<longrightarrow>
                     map_option write_buf (the_bev st' c Output) = Some wb
                     \<and> \<not> reads_input st' c))"
proof -
  obtain g af addr port where ga: "socks_state_get_address ext ss = (g, af, addr, port)"
    by (cases "socks_state_get_address ext ss") auto
  show ?thesis
    using assms ga
    by (auto simp: socks_attach_outbound_def Let_def log_call_def conn_store_def live_def
        the_bev_def reads_input_def on_bev_def bufferevent_setcb_def bufferevent_enable_def
        bufferevent_disable_def new_bufferevent_def
        split: if_splits option.splits dest!: close_conn_effect)
qed

lemma socks_read_done_trace:
  "socks_read_done ext st c bev r = Inr st' \<Longrightarrow>
   trace st' = trace st \<or> trace st' = trace st @ [Finish_shutdown]"
  by (auto simp: socks_read_done_def conn_store_def
      split: if_splits option.splits sum.splits dest!: close_conn_effect)

lemma socks_read_loop_handshake_first:
  assumes "socks_read_loop fuel ext st c bev = Some (Inr st')"
    and "conns st c = Some conn" and "proto conn = Some p"
    and "proto_handshake ext p [] = (r, p1, wb)"
  shows "\<exists>rest. trace st' = trace st @ rest
           \<and> (Socket_connect c \<in> set rest \<longrightarrow>
                take 2 rest = [Proto_handshake c Output, Socket_connect c]
                \<and> (live st' c \<longrightarrow>
                     map_option write_buf (the_bev st' c Output) = Some wb
                     \<and> \<not> reads_input st' c))"
  using assms(1-3)
proof (induction fuel arbitrary: st conn)
  case 0
  then show ?case by simp
next
  case (Suc n)
  from Suc.prems obtain ss where s: "socks_state conn = Some ss"
    and ns: "socks_state_get_status ext ss \<noteq> ST_SENT_REPLY"
    by (auto split: option.splits if_splits)
  show ?case
  proof (cases "socks_state_get_status ext ss = ST_HAVE_ADDR")
    case True
    with Suc.prems s ns have "socks_attach_outbound ext st c conn ss = Inr st'" by simp
    then show ?thesis using Suc.prems(3) assms(4) by (rule socks_attach_handshake_first)
  next
    case False
    with Suc.prems s ns obtain b where b: "bev_of bev conn = Some b"
      by (auto split: option.splits)
    obtain g rb wb' ss1 where
      h: "handle_socks ext (read_buf b) (write_buf b) ss = (g, rb, wb', ss1)"
      by (cases "handle_socks ext (read_buf b) (write_buf b) ss") auto
    define conn1 where "conn1 = bev_set bev (b\<lparr>read_buf := rb, write_buf := wb'\<rparr>)
                                  (conn\<lparr>socks_state := Some ss1\<rparr>)"
    define st1 where "st1 = conn_store st c conn1"
    have k1: "conns st1 c = Some conn1" by (simp add: st1_def conn_store_def)
    have p1: "proto conn1 = Some p"
      using Suc.prems(3) by (cases bev) (simp_all add: conn1_def)
    have t1: "trace st1 = trace st" by (simp add: st1_def conn_store_def)
    show ?thesis
    proof (cases "g = SOCKS_GOOD")
      case True
      with Suc.prems s ns False b h have "socks_read_loop n ext st1 c bev = Some (Inr st')"
        by (simp add: st1_def conn1_def)
      from Suc.IH [OF this k1 p1] t1 show ?thesis by simp
    next
      case ng: False
      with Suc.prems s ns False b h have "socks_read_done ext st1 c bev g = Inr st'"
        by (simp add: st1_def conn1_def)
      from socks_read_done_trace [OF this] t1 show ?thesis by auto
    qed
  qed
qed

text \<open>
  C6, as the code has it. Whenever an acceptance flow issues the connect call, the call
  right before it is the protocol handshake. In the simple-client callback and in the
  attach-outbound branch of \<open>socks_read_cb\<close>, on whichever pass of its loop that
  branch is reached, the handshake writes to the outbound stream's write buffer; in the
  simple-server callback it writes to the accepted (input) stream's write buffer, and
  the outbound write buffer stays empty. The connection that results holds exactly the
  bytes the handshake produced in that buffer.
\<close>

theorem handshake_before_connect:
  assumes "proto_handshake ext p [] = (r, p1, wb)"
  shows "(params_heap st (proto_params lsn) = Some params \<and> proto_create ext params = Some p
            \<and> conns st (next_conn st) = None
            \<and> simple_client_listener_cb ext st lsn fd = Inr st'
          \<longrightarrow> (\<exists>rest. trace st' = trace st @ rest
                  \<and> (Socket_connect (next_conn st) \<in> set rest \<longrightarrow>
                       rest = [Proto_handshake (next_conn st) Output,
                               Socket_connect (next_conn st)]))
              \<and> (live st' (next_conn st) \<longrightarrow>
                   map_option write_buf (the_bev st' (next_conn st) Output) = Some wb
                   \<and> map_option write_buf (the_bev st' (next_conn st) Input) = Some []))
       \<and> (params_heap st (proto_params lsn) = Some params \<and> proto_create ext params = Some p
            \<and> conns st (next_conn st) = None
            \<and> simple_server_listener_cb ext st lsn fd = Inr st'
          \<longrightarrow> (\<exists>rest. trace st' = trace st @ rest
                  \<and> (Socket_connect (next_conn st) \<in> set rest \<longrightarrow>
                       rest = [Proto_handshake (next_conn st) Input,
                               Socket_connect (next_conn st)]))
              \<and> (live st' (next_conn st) \<longrightarrow>
                   map_option write_buf (the_bev st' (next_conn st) Input) = Some wb
                   \<and> map_option write_buf (the_bev st' (next_conn st) Output) = Some []))
       \<and> (conns st c = Some conn \<and> proto conn = Some p
            \<and> socks_read_cb fuel ext st Input (Conn_ptr c) = Some (Inr st')
          \<longrightarrow> (\<exists>rest. trace st' = trace st @ rest
                  \<and> (Socket_connect c \<in> set rest \<longrightarrow>
                       take 2 rest = [Proto_handshake c Output, Socket_connect c]
                       \<and> (live st' c \<longrightarrow>
                            map_option write_buf (the_bev st' c Output) = Some wb))))"
proof -
  have third: "\<exists>rest. trace st' = trace st @ rest
                  \<and> (Socket_connect c \<in> set rest \<longrightarrow>
                       take 2 rest = [Proto_handshake c Output, Socket_connect c]
                       \<and> (live st' c \<longrightarrow>
                            map_option write_buf (the_bev st' c Output) = Some wb))"
    if h: "conns st c = Some conn \<and> proto conn = Some p
            \<and> socks_read_cb fuel ext st Input (Conn_ptr c) = Some (Inr st')"
  proof -
    from h have "socks_read_loop fuel ext st c Input = Some (Inr st')"
      by (clarsimp simp: socks_read_cb_def conn_of_arg_def split: if_splits)
    from socks_read_loop_handshake_first [OF this _ _ assms, of conn] h
    show ?thesis by blast
  qed
  show ?thesis
    apply (intro conjI)
    subgoal
      using simple_client_handshake_first [of ext st lsn fd st' params p r p1 wb] assms
      by blast
    subgoal
      using simple_server_handshake_first [of ext st lsn fd st' params p r p1 wb] assms
      by blast
    subgoal
      using third by blast
    done
qed

theorem handshake_before_connect_witness:
  "proto_handshake handshake_ext () [] = (0, (), [22, 3, 1])
   \<and> \<not> isl (simple_client_listener_cb handshake_ext (configured_state client_params)
              (listener_on Simple_client_listener_cb) 5)
   \<and> trace (projr (simple_client_listener_cb handshake_ext (configured_state client_params)
              (listener_on Simple_client_listener_cb) 5))
       = [Proto_handshake 0 Output, Socket_connect 0]
   \<and> map_option write_buf
        (the_bev (projr (simple_client_listener_cb handshake_ext (configured_state client_params)
              (listener_on Simple_client_listener_cb) 5)) 0 Output) = Some [22, 3, 1]
   \<and> \<not> isl (simple_server_listener_cb handshake_ext (configured_state server_params)
              (listener_on Simple_server_listener_cb) 5)
   \<and> map_option write_buf
        (the_bev (projr (simple_server_listener_cb handshake_ext (configured_state server_params)
              (listener_on Simple_server_listener_cb) 5)) 0 Input) = Some [22, 3, 1]
   \<and> proto_handshake socks_handshake_ext () [] = (0, (), [22, 3, 1])
   \<and> map_option isl
        (socks_read_cb 3 socks_handshake_ext
           (one_conn_state (socks_conn ST_WAITING [5, 1, 0, 5, 1, 0, 1, 10, 0, 0, 2, 0, 80] None))
           Input (Conn_ptr 0)) = Some False
   \<and> trace (projr (the
        (socks_read_cb 3 socks_handshake_ext
           (one_conn_state (socks_conn ST_WAITING [5, 1, 0, 5, 1, 0, 1, 10, 0, 0, 2, 0, 80] None))
           Input (Conn_ptr 0))))
       = [Proto_handshake 0 Output, Socket_connect 0]
   \<and> map_option write_buf
        (the_bev (projr (the
           (socks_read_cb 3 socks_handshake_ext
              (one_conn_state
                 (socks_conn ST_WAITING [5, 1, 0, 5, 1, 0, 1, 10, 0, 0, 2, 0, 80] None))
              Input (Conn_ptr 0)))) 0 Output) = Some [22, 3, 1]"
proof -
  have a: "proto_handshake handshake_ext () [] = (0, (), [22, 3, 1])"
    by (simp add: handshake_ext_def)
  have b: "proto_handshake socks_handshake_ext () [] = (0, (), [22, 3, 1])"
    by (simp add: socks_handshake_ext_def)
  let ?entry = "one_conn_state
                  (socks_conn ST_WAITING [5, 1, 0, 5, 1, 0, 1, 10, 0, 0, 2, 0, 80] None)"
  show ?thesis
    using handshake_before_connect [OF a, where st = "configured_state client_params"
        and lsn = "listener_on Simple_client_listener_cb" and fd = 5
        and params = client_params
        and st' = "projr (simple_client_listener_cb handshake_ext
                     (configured_state client_params)
                     (listener_on Simple_client_listener_cb) 5)"]
      handshake_before_connect [OF a, where st = "configured_state server_params"
        and lsn = "listener_on Simple_server_listener_cb" and fd = 5
        and params = server_params
        and st' = "projr (simple_server_listener_cb handshake_ext
                     (configured_state server_params)
                     (listener_on Simple_server_listener_cb) 5)"]
      handshake_before_connect [OF b, where st = ?entry and c = 0 and fuel = 3
        and conn = "socks_conn ST_WAITING [5, 1, 0, 5, 1, 0, 1, 10, 0, 0, 2, 0, 80] None"
        and st' = "projr (the (socks_read_cb 3 socks_handshake_ext ?entry Input (Conn_ptr 0)))"]
    by (simp add: simple_client_listener_cb_def simple_server_listener_cb_def
        handshake_ext_def socks_handshake_ext_def negotiating_ext_def plain_ext_def
        configured_state_def client_params_def
        server_params_def listener_on_def initial_state_def Let_def log_call_def
        register_conn_def conn_store_def the_bev_def zeroed_conn_def bufferevent_setcb_def
        bufferevent_enable_def bufferevent_disable_def new_bufferevent_def
        socks_read_cb_def conn_of_arg_def bev_is_def socks_attach_outbound_def on_bev_def
        one_conn_state_def socks_conn_def numeral_3_eq_3)
qed

text \<open>
  C6 as stated fails for the simple-server flow: with a protocol whose handshake emits
  three bytes, the accepted connection has them in the input stream's write buffer, and
  the outbound stream's write buffer is empty when connect is called and afterwards.
\<close>

theorem server_handshake_not_outbound_counterexample:
  "\<not> isl (simple_server_listener_cb handshake_ext (configured_state server_params)
            (listener_on Simple_server_listener_cb) 5)
   \<and> trace (projr (simple_server_listener_cb handshake_ext (configured_state server_params)
            (listener_on Simple_server_listener_cb) 5))
       = [Proto_handshake 0 Input, Socket_connect 0]
   \<and> map_option write_buf
        (the_bev (projr (simple_server_listener_cb handshake_ext (configured_state server_params)
            (listener_on Simple_server_listener_cb) 5)) 0 Output) = Some []
   \<and> map_option write_buf
        (the_bev (projr (simple_server_listener_cb handshake_ext (configured_state server_params)
            (listener_on Simple_server_listener_cb) 5)) 0 Input) = Some [22, 3, 1]"
  by (simp add: simple_server_listener_cb_def handshake_ext_def plain_ext_def
      configured_state_def server_params_def listener_on_def initial_state_def Let_def
      log_call_def register_conn_def conn_store_def the_bev_def zeroed_conn_def
      bufferevent_setcb_def bufferevent_enable_def new_bufferevent_def)

subsection \<open>The input gate\<close>

lemma step_ok_refl [simp]: "conn_step_ok x m c old old"
  by (simp add: conn_step_ok_def split: option.splits)

lemma step_ok_none [simp]: "conn_step_ok x True c old None"
  by (simp add: conn_step_ok_def)




lemma reading_simps [simp]:
  "reading (bev_set Input b k) = (EV_READ \<in> enabled b)"
  "reading (bev_set Output b k) = reading k"
  "reading (k\<lparr>proto := p\<rparr>) = reading k"
  "reading (k\<lparr>socks_state := s\<rparr>) = reading k"
  "reading (k\<lparr>flushing := f\<rparr>) = reading k"
  "reading (k\<lparr>is_open := o'\<rparr>) = reading k"
  "reading (k\<lparr>conn_output := ob\<rparr>) = reading k"
  "reading (k\<lparr>conn_input := Some b\<rparr>) = (EV_READ \<in> enabled b)"
  by (simp_all add: reading_def)

lemma is_open_bev_set [simp]: "is_open (bev_set s b k) = is_open k"
  by (cases s) simp_all

































end
